theory Spec2Isabelle
  imports Complex_Main "HOL-Library.Word" "HOL-Library.Sublist"
begin

section \<open>The ESP32-S3 rock-paper-scissors classifier (esp32 s3 sense/main.py)\<close>

text \<open>
  A shallow embedding of \<^verbatim>\<open>HTTPServer\<close> and \<^verbatim>\<open>RealTimeClassifier\<close>.
  Python floats are modelled as \<^typ>\<open>real\<close>: the properties below are about order and
  exact decimal constants, not about rounding, and NaN is outside the model. Python
  exceptions are values of \<open>exn\<close>; a function that can raise returns \<open>exn + 'a\<close> with
  \<open>Inl\<close> the raised exception. Calls into the camera, the interpreter and the socket are
  answered by an environment record, and the calls made are recorded as a list of events.
\<close>

subsection \<open>Exceptions and list primitives\<close>

text \<open>
  \<open>OSError args\<close> carries \<^verbatim>\<open>e.args\<close> (the errno first, when there is one); the other
  constructors are subclasses of \<^verbatim>\<open>Exception\<close> that are not \<^verbatim>\<open>OSError\<close>. What only
  \<^verbatim>\<open>BaseException\<close> covers (a keyboard interrupt) is not modelled.
\<close>

datatype exn = OSError "int list" | IndexError | ValueError | TypeError | OtherException string

text \<open>\<^verbatim>\<open>max(xs)\<close>: the first element is kept until a strictly greater one is met.\<close>

fun py_max :: "real list \<Rightarrow> exn + real" where
  "py_max [] = Inl ValueError"
| "py_max (x # xs) = Inr (foldl (\<lambda>m y. if y > m then y else m) x xs)"

text \<open>\<^verbatim>\<open>xs.index(v)\<close>: the first position holding \<open>v\<close>, \<^verbatim>\<open>ValueError\<close> when there is none.\<close>

fun py_index :: "real list \<Rightarrow> real \<Rightarrow> exn + nat" where
  "py_index [] v = Inl ValueError"
| "py_index (x # xs) v =
     (if x = v then Inr 0
      else (case py_index xs v of Inl e \<Rightarrow> Inl e | Inr k \<Rightarrow> Inr (Suc k)))"

subsection \<open>ClassificationResult and process_result\<close>

record classification_result =
  timestamp :: int
  probabilities :: "real list"
  predicted_class :: int

definition class_names :: "string list" where
  "class_names = [''rock'', ''paper'', ''scissors'']"

text \<open>
  \<^verbatim>\<open>process_result(output)\<close>, with \<open>now\<close> the value of \<^verbatim>\<open>time.ticks_ms()\<close>. The two
  conditional expressions of the dictionary literal are evaluated in the source's order.
\<close>

definition process_result :: "int \<Rightarrow> real list \<Rightarrow> exn + classification_result" where
  "process_result now output =
     (let probs = (if length output \<ge> 3 then take 3 output else [0.33, 0.33, 0.34]) in
      if length output \<ge> 3 then
        (case py_max (take 3 output) of
           Inl e \<Rightarrow> Inl e
         | Inr m \<Rightarrow>
             (case py_index output m of
                Inl e \<Rightarrow> Inl e
              | Inr k \<Rightarrow> Inr \<lparr>timestamp = now, probabilities = probs, predicted_class = int k\<rparr>))
      else Inr \<lparr>timestamp = now, probabilities = probs, predicted_class = 0\<rparr>)"

text \<open>
  The specification's reading of "index of the maximum, ties to the lowest index":
  position \<open>k\<close> holds a value no smaller than any other and strictly greater than every
  earlier one.
\<close>

definition is_first_argmax :: "real list \<Rightarrow> nat \<Rightarrow> bool" where
  "is_first_argmax ps k \<longleftrightarrow>
     k < length ps \<and> list_all (\<lambda>j. ps ! j \<le> ps ! k) [0..<length ps]
       \<and> list_all (\<lambda>j. ps ! j < ps ! k) [0..<k]"

subsection \<open>Frames and preprocess_image\<close>

text \<open>
  What \<^verbatim>\<open>camera.capture()\<close> can hand back: \<^verbatim>\<open>None\<close>, a byte buffer, or some other
  object that is neither a buffer nor falsy.
\<close>

datatype frame = PyNone | PyBytes "8 word list" | PyOther

text \<open>\<^verbatim>\<open>not frame\<close>: \<^verbatim>\<open>None\<close> and the empty buffer are falsy.\<close>

fun falsy :: "frame \<Rightarrow> bool" where
  "falsy PyNone = True"
| "falsy (PyBytes bs) = (bs = [])"
| "falsy PyOther = False"

definition tensor_len :: nat where
  "tensor_len = 224 * 224 * 3"

text \<open>
  \<^verbatim>\<open>xs[i]\<close> with Python's index rule: a negative index counts from the end, anything
  out of range raises \<^verbatim>\<open>IndexError\<close>.
\<close>

definition py_nth :: "'a list \<Rightarrow> int \<Rightarrow> exn + 'a" where
  "py_nth xs i =
     (if 0 \<le> i \<and> i < int (length xs) then Inr (xs ! nat i)
      else if i < 0 \<and> - int (length xs) \<le> i then Inr (xs ! nat (int (length xs) + i))
      else Inl IndexError)"

text \<open>
  \<^verbatim>\<open>range(start, stop, step)\<close> for a positive step: \<open>\<lceil>(stop - start) / step\<rceil>\<close>
  values (none when that is not positive), \<open>start + k * step\<close> each.
\<close>

definition py_range :: "int \<Rightarrow> int \<Rightarrow> int \<Rightarrow> int list" where
  "py_range start stop step =
     map (\<lambda>k. start + int k * step) [0..<nat ((stop - start + step - 1) div step)]"

text \<open>
  The body of the \<^verbatim>\<open>for i in range(0, len(frame) - 3, step)\<close> loop, run over the
  indices the range yields: three bytes are read, divided by 255 and appended.
\<close>

fun preprocess_loop :: "8 word list \<Rightarrow> int list \<Rightarrow> real list \<Rightarrow> exn + real list" where
  "preprocess_loop frame [] processed_data = Inr processed_data"
| "preprocess_loop frame (i # rest) processed_data =
     (case py_nth frame i of
        Inl e \<Rightarrow> Inl e
      | Inr r \<Rightarrow>
          (case py_nth frame (i + 1) of
             Inl e \<Rightarrow> Inl e
           | Inr g \<Rightarrow>
               (case py_nth frame (i + 2) of
                  Inl e \<Rightarrow> Inl e
                | Inr b \<Rightarrow>
                    preprocess_loop frame rest
                      (processed_data @
                         [real (unat r) / 255, real (unat g) / 255, real (unat b) / 255]))))"

definition preprocess_image :: "frame \<Rightarrow> exn + real list" where
  "preprocess_image fr =
     (case fr of
        PyBytes frame \<Rightarrow>
          (let step = max 1 (int (length frame) div int tensor_len) in
           case preprocess_loop frame (py_range 0 (int (length frame) - 3) step) [] of
             Inl e \<Rightarrow> Inl e
           | Inr processed_data \<Rightarrow>
               if length processed_data < tensor_len
               then Inr (processed_data @ replicate (tensor_len - length processed_data) 0)
               else Inr (take tensor_len processed_data))
      | _ \<Rightarrow> Inr (replicate tensor_len 0))"

text \<open>
  The specification's description of the same transform, written without the loop:
  the stride, the sampled triples in order, then padding or truncation.
\<close>

definition stride :: "8 word list \<Rightarrow> nat" where
  "stride frame = max 1 (length frame div tensor_len)"

definition sampled :: "8 word list \<Rightarrow> real list" where
  "sampled frame =
     concat (map (\<lambda>k. [real (unat (frame ! (k * stride frame))) / 255,
                        real (unat (frame ! (k * stride frame + 1))) / 255,
                        real (unat (frame ! (k * stride frame + 2))) / 255])
               [0..<(length frame - 3 + stride frame - 1) div stride frame])"

definition pad_or_truncate :: "real list \<Rightarrow> real list" where
  "pad_or_truncate xs = take tensor_len xs @ replicate (tensor_len - length xs) 0"

text \<open>The three normalised values appended by one pass of the loop body at index \<open>i\<close>.\<close>

definition triple :: "8 word list \<Rightarrow> int \<Rightarrow> real list" where
  "triple frame i =
     [real (unat (frame ! nat i)) / 255, real (unat (frame ! nat (i + 1))) / 255,
      real (unat (frame ! nat (i + 2))) / 255]"

subsection \<open>Events\<close>

text \<open>
  The calls the program makes into its collaborators, in order. \<open>EvSend\<close> is a call of
  \<^verbatim>\<open>client.send\<close> with its argument: text, the JSON header followed by
  \<^verbatim>\<open>json.dumps\<close> of a result (kept as the result itself), or the raw bytes of an image.
  \<open>EvLog\<close> is a \<^verbatim>\<open>print\<close>, named by the fixed part of its message.
\<close>

datatype payload = Text string | Json string classification_result | Raw "8 word list"

datatype event =
    EvBind nat | EvListen | EvSetBlocking bool | EvAccept | EvRecv
  | EvSend payload | EvClose
  | EvCapture | EvSleep nat | EvLog string
  | EvSetInput | EvInvoke | EvGetOutput | EvGcCollect

subsection \<open>run_inference\<close>

text \<open>
  The interpreter is a black box: for the tensor it is given, each of its three calls
  either raises or succeeds, and \<^verbatim>\<open>get_output\<close> then yields a list of numbers.
\<close>

record engine_env =
  set_input_res :: "real list \<Rightarrow> exn option"
  invoke_res :: "real list \<Rightarrow> exn option"
  get_output_res :: "real list \<Rightarrow> exn + real list"

text \<open>The \<^verbatim>\<open>try\<close> block of \<^verbatim>\<open>run_inference\<close>.\<close>

definition run_inference_try :: "engine_env \<Rightarrow> real list \<Rightarrow> event list \<times> (exn + real list)" where
  "run_inference_try eng input_data =
     (case set_input_res eng input_data of
        Some e \<Rightarrow> ([EvSetInput], Inl e)
      | None \<Rightarrow>
          (case invoke_res eng input_data of
             Some e \<Rightarrow> ([EvSetInput, EvInvoke], Inl e)
           | None \<Rightarrow>
               (case get_output_res eng input_data of
                  Inl e \<Rightarrow> ([EvSetInput, EvInvoke, EvGetOutput], Inl e)
                | Inr output \<Rightarrow>
                    ([EvSetInput, EvInvoke, EvGetOutput, EvLog ''Inference complete'']
                       @ (if length output \<noteq> length class_names
                          then [EvLog ''Warning: Expected outputs''] else []),
                     Inr output))))"

text \<open>\<^verbatim>\<open>run_inference\<close>: the \<^verbatim>\<open>except Exception\<close> clause returns the fallback vector.\<close>

definition run_inference :: "engine_env \<Rightarrow> real list \<Rightarrow> event list \<times> (exn + real list)" where
  "run_inference eng input_data =
     (case run_inference_try eng input_data of
        (evs, Inl e) \<Rightarrow> (evs @ [EvLog ''Inference error''], Inr [0.33, 0.33, 0.34])
      | (evs, Inr output) \<Rightarrow> (evs, Inr output))"

text \<open>The interpreter raises in one of its three calls for this tensor.\<close>

definition engine_raises :: "engine_env \<Rightarrow> real list \<Rightarrow> bool" where
  "engine_raises eng input_data \<longleftrightarrow>
     set_input_res eng input_data \<noteq> None \<or> invoke_res eng input_data \<noteq> None
       \<or> isl (get_output_res eng input_data)"

subsection \<open>HTTPServer\<close>

record http_server =
  port :: nat
  latest_results :: classification_result

text \<open>
  The socket at start-up: \<open>bind_res k p\<close> is the outcome of the \<open>k\<close>-th call of
  \<^verbatim>\<open>bind\<close> (counted from 0) when it is made on port \<open>p\<close>, \<open>listen_res\<close> that of
  \<^verbatim>\<open>listen\<close>; \<open>None\<close> is success. Creating the socket and setting its reuse option
  come before the first \<^verbatim>\<open>bind\<close> and are taken to succeed.
\<close>

record socket_env =
  bind_res :: "nat \<Rightarrow> nat \<Rightarrow> exn option"
  listen_res :: "exn option"

text \<open>The statements of \<^verbatim>\<open>__init__\<close> after the \<^verbatim>\<open>try\<close>: listen, then set the default results.\<close>

definition start_listening :: "socket_env \<Rightarrow> nat \<Rightarrow> exn + http_server" where
  "start_listening env p =
     (case listen_res env of
        Some e \<Rightarrow> Inl e
      | None \<Rightarrow>
          Inr \<lparr>port = p,
               latest_results =
                 \<lparr>timestamp = 0, probabilities = [0.33, 0.34, 0.33], predicted_class = 0\<rparr>\<rparr>)"

text \<open>
  \<^verbatim>\<open>HTTPServer.__init__(port)\<close>. Only \<^verbatim>\<open>OSError\<close> is caught; reading \<^verbatim>\<open>e.args[0]\<close> of an
  \<^verbatim>\<open>OSError\<close> without arguments raises \<^verbatim>\<open>IndexError\<close> from inside the handler.
\<close>

definition HTTPServer_init :: "socket_env \<Rightarrow> nat \<Rightarrow> event list \<times> (exn + http_server)" where
  "HTTPServer_init env p =
     (case bind_res env 0 p of
        None \<Rightarrow>
          (case start_listening env p of
             Inl e \<Rightarrow> ([EvBind p, EvListen], Inl e)
           | Inr srv \<Rightarrow> ([EvBind p, EvListen, EvLog ''HTTP server started''], Inr srv))
      | Some (OSError args) \<Rightarrow>
          (case py_nth args 0 of
             Inl e \<Rightarrow> ([EvBind p], Inl e)
           | Inr errno \<Rightarrow>
               if errno = 112 then
                 (case bind_res env 1 8080 of
                    Some e \<Rightarrow> ([EvBind p, EvLog ''Port in use'', EvBind 8080], Inl e)
                  | None \<Rightarrow>
                      (case start_listening env 8080 of
                         Inl e \<Rightarrow> ([EvBind p, EvLog ''Port in use'', EvBind 8080, EvListen], Inl e)
                       | Inr srv \<Rightarrow>
                           ([EvBind p, EvLog ''Port in use'', EvBind 8080, EvListen,
                             EvLog ''HTTP server started''], Inr srv)))
               else ([EvBind p], Inl (OSError args)))
      | Some e \<Rightarrow> ([EvBind p], Inl e))"

definition update_results :: "http_server \<Rightarrow> classification_result \<Rightarrow> http_server" where
  "update_results srv results = srv\<lparr>latest_results := results\<rparr>"

subsection \<open>Strings\<close>

text \<open>\<^verbatim>\<open>s.split(sep)\<close> for a one-character separator: every occurrence cuts, empty pieces are kept.\<close>

fun py_split :: "char \<Rightarrow> string \<Rightarrow> string list" where
  "py_split sep [] = [[]]"
| "py_split sep (c # cs) =
     (if c = sep then [] # py_split sep cs
      else (case py_split sep cs of
              [] \<Rightarrow> [[c]]
            | w # ws \<Rightarrow> (c # w) # ws))"

text \<open>Decimal digits of a natural number, and \<^verbatim>\<open>str\<close> of an integer as an f-string prints it.\<close>

fun str_nat :: "nat \<Rightarrow> string" where
  "str_nat n =
     (if n < 10 then [char_of (48 + n)]
      else str_nat (n div 10) @ [char_of (48 + n mod 10)])"

declare str_nat.simps [simp del]

definition py_str :: "int \<Rightarrow> string" where
  "py_str i = (if i < 0 then CHR ''-'' # str_nat (nat (- i)) else str_nat (nat i))"

definition crlf :: string where
  "crlf = [CHR 0x0D, CHR 0x0A]"

definition json_header :: string where
  "json_header =
     ''HTTP/1.1 200 OK'' @ crlf @ ''Content-Type: application/json'' @ crlf
       @ ''Access-Control-Allow-Origin: *'' @ crlf @ crlf"

definition jpeg_header :: string where
  "jpeg_header =
     ''HTTP/1.1 200 OK'' @ crlf @ ''Content-Type: image/jpeg'' @ crlf
       @ ''Access-Control-Allow-Origin: *'' @ crlf @ crlf"

definition html_header :: string where
  "html_header = ''HTTP/1.1 200 OK'' @ crlf @ ''Content-Type: text/html'' @ crlf @ crlf"

definition error_500 :: string where
  "error_500 = ''HTTP/1.1 500 Internal Server Error'' @ crlf @ crlf"

text \<open>The status page of the default route, built from \<^verbatim>\<open>self.latest_results\<close>.\<close>

definition status_page :: \<open>classification_result \<Rightarrow> string\<close> where
  \<open>status_page results =
     ''<html><body><h1>ESP32-S3 Classifier</h1>''
       @ ''<p>Status: Running</p>''
       @ ''<p>Latest class: '' @ py_str (predicted_class results) @ ''</p>''
       @ ''<p>API Endpoints: <ul>''
       @ ''<li><a href="/classify">/classify</a> - JSON classification results</li>''
       @ ''<li><a href="/jpg">/jpg</a> - Latest camera image</li>''
       @ ''</ul></p>''
       @ ''</body></html>''\<close>

subsection \<open>handle_client\<close>

text \<open>
  What one call of \<^verbatim>\<open>handle_client\<close> meets: the outcome of the non-blocking
  \<^verbatim>\<open>accept\<close> (\<open>None\<close>: a client is there), of \<^verbatim>\<open>client.recv(1024).decode()\<close>, of
  \<^verbatim>\<open>camera.capture()\<close> on the image route, and of the \<open>k\<close>-th \<^verbatim>\<open>client.send\<close>
  (counted from 0; \<open>None\<close>: sent). \<^verbatim>\<open>setblocking\<close> and \<^verbatim>\<open>close\<close> are taken to succeed.
\<close>

record client_env =
  accept_res :: "exn option"
  recv_res :: "exn + string"
  jpg_capture_res :: "exn + frame"
  send_res :: "nat \<Rightarrow> exn option"

text \<open>
  \<^verbatim>\<open>request.split('\n')[0]\<close> then \<^verbatim>\<open>request_line.split(' ')[1]\<close>: the second piece of
  the first line, \<^verbatim>\<open>IndexError\<close> when the line has no space.
\<close>

definition request_path :: "string \<Rightarrow> exn + string" where
  "request_path request =
     (case py_nth (py_split (CHR 0x0A) request) 0 of
        Inl e \<Rightarrow> Inl e
      | Inr request_line \<Rightarrow> py_nth (py_split (CHR '' '') request_line) 1)"

text \<open>
  The \<^verbatim>\<open>except:\<close> clause of the image route: one more \<^verbatim>\<open>send\<close>, the \<open>k\<close>-th, of the
  500 response; what it raises leaves the route.
\<close>

definition send_500 :: "client_env \<Rightarrow> nat \<Rightarrow> event list \<Rightarrow> event list \<times> exn option" where
  "send_500 env k evs = (evs @ [EvSend (Text error_500)], send_res env k)"

text \<open>
  The image route. Sending something that is not a buffer raises \<^verbatim>\<open>TypeError\<close> before
  anything is written, and the bare \<^verbatim>\<open>except:\<close> answers it like any other failure.
\<close>

definition serve_jpg :: "client_env \<Rightarrow> event list \<times> exn option" where
  "serve_jpg env =
     (case jpg_capture_res env of
        Inl e \<Rightarrow> send_500 env 0 [EvCapture]
      | Inr img \<Rightarrow>
          (case send_res env 0 of
             Some e \<Rightarrow> send_500 env 1 [EvCapture, EvSend (Text jpeg_header)]
           | None \<Rightarrow>
               (case img of
                  PyBytes bs \<Rightarrow>
                    (case send_res env 1 of
                       Some e \<Rightarrow>
                         send_500 env 2 [EvCapture, EvSend (Text jpeg_header), EvSend (Raw bs)]
                     | None \<Rightarrow> ([EvCapture, EvSend (Text jpeg_header), EvSend (Raw bs)], None))
                | _ \<Rightarrow> send_500 env 1 [EvCapture, EvSend (Text jpeg_header)])))"

text \<open>
  The dispatch on the path, up to and including \<^verbatim>\<open>client.close()\<close>, which is reached
  only when the chosen branch did not raise.
\<close>

definition dispatch :: "http_server \<Rightarrow> client_env \<Rightarrow> string \<Rightarrow> event list \<times> exn option" where
  "dispatch srv env path =
     (if path = ''/classify'' \<or> path = ''/data'' \<or> path = ''/api'' then
        (case send_res env 0 of
           Some e \<Rightarrow> ([EvSend (Json json_header (latest_results srv))], Some e)
         | None \<Rightarrow> ([EvSend (Json json_header (latest_results srv)), EvClose], None))
      else if path = ''/jpg'' \<or> path = ''/capture'' then
        (case serve_jpg env of
           (evs, Some e) \<Rightarrow> (evs, Some e)
         | (evs, None) \<Rightarrow> (evs @ [EvClose], None))
      else
        (case send_res env 0 of
           Some e \<Rightarrow>
             ([EvSend (Text (html_header @ status_page (latest_results srv)))], Some e)
         | None \<Rightarrow>
             ([EvSend (Text (html_header @ status_page (latest_results srv))), EvClose], None)))"

text \<open>The \<^verbatim>\<open>try\<close> block of \<^verbatim>\<open>handle_client\<close>; \<open>Some e\<close> is the exception it raised.\<close>

definition handle_client_try :: "http_server \<Rightarrow> client_env \<Rightarrow> event list \<times> exn option" where
  "handle_client_try srv env =
     (case accept_res env of
        Some e \<Rightarrow> ([EvAccept], Some e)
      | None \<Rightarrow>
          (case recv_res env of
             Inl e \<Rightarrow> ([EvAccept, EvLog ''HTTP client connected'', EvSetBlocking True, EvRecv], Some e)
           | Inr request \<Rightarrow>
               (case request_path request of
                  Inl e \<Rightarrow>
                    ([EvAccept, EvLog ''HTTP client connected'', EvSetBlocking True, EvRecv], Some e)
                | Inr path \<Rightarrow>
                    (case dispatch srv env path of
                       (evs, r) \<Rightarrow>
                         ([EvAccept, EvLog ''HTTP client connected'', EvSetBlocking True, EvRecv]
                            @ evs, r)))))"

text \<open>
  \<^verbatim>\<open>handle_client\<close> with its two handlers. \<^verbatim>\<open>except OSError\<close> reads \<^verbatim>\<open>e.args[0]\<close>, which
  raises \<^verbatim>\<open>IndexError\<close> out of the method when there are no arguments; errno 11 is
  silent, any other is printed. \<^verbatim>\<open>except Exception\<close> prints. The second component is
  the exception that leaves the method, if any.
\<close>

definition handle_client :: "http_server \<Rightarrow> client_env \<Rightarrow> event list \<times> exn option" where
  "handle_client srv env =
     (case handle_client_try srv env of
        (evs, None) \<Rightarrow> (EvSetBlocking False # evs, None)
      | (evs, Some (OSError args)) \<Rightarrow>
          (case py_nth args 0 of
             Inl e \<Rightarrow> (EvSetBlocking False # evs, Some e)
           | Inr errno \<Rightarrow>
               if errno = 11 then (EvSetBlocking False # evs, None)
               else (EvSetBlocking False # evs @ [EvLog ''HTTP server error''], None))
      | (evs, Some e) \<Rightarrow>
          (EvSetBlocking False # evs @ [EvLog ''Error handling HTTP client''], None))"

subsection \<open>One iteration of run_classification\<close>

record loop_state =
  http_server :: http_server
  last_class :: int

text \<open>
  What one iteration meets: the outcome of \<^verbatim>\<open>camera.capture()\<close>, the clock, the
  interpreter and the network.
\<close>

record tick_env =
  frame_res :: "exn + frame"
  ticks_ms :: int
  engine :: engine_env
  client :: client_env

text \<open>
  The block run when the predicted class changed: the class name is looked up, the
  confidence is the maximum probability, both are printed and \<^verbatim>\<open>last_class\<close> is set.
\<close>

definition log_change :: "classification_result \<Rightarrow> int \<Rightarrow> event list \<times> (exn + int)" where
  "log_change result lc =
     (if predicted_class result \<noteq> lc then
        (case py_nth class_names (predicted_class result) of
           Inl e \<Rightarrow> ([EvLog ''New prediction''], Inl e)
         | Inr class_name \<Rightarrow>
             (case py_max (probabilities result) of
                Inl e \<Rightarrow> ([EvLog ''New prediction''], Inl e)
              | Inr confidence \<Rightarrow>
                  ([EvLog ''New prediction'', EvLog (''Class: '' @ class_name)],
                   Inr (predicted_class result))))
      else ([], Inr lc))"

text \<open>
  Preprocessing, inference and \<^verbatim>\<open>process_result\<close> for a captured frame. \<open>Inr None\<close> is
  the \<^verbatim>\<open>continue\<close> taken when the tensor is empty.
\<close>

definition classify_frame ::
  "tick_env \<Rightarrow> frame \<Rightarrow> event list \<times> (exn + classification_result option)" where
  "classify_frame env fr =
     (case preprocess_image fr of
        Inl e \<Rightarrow> ([], Inl e)
      | Inr input_data \<Rightarrow>
          if input_data = [] then ([EvSleep 50], Inr None)
          else
            (case run_inference (engine env) input_data of
               (evs, Inl e) \<Rightarrow> (evs, Inl e)
             | (evs, Inr output) \<Rightarrow>
                 (case process_result (ticks_ms env) output of
                    Inl e \<Rightarrow> (evs, Inl e)
                  | Inr result \<Rightarrow> (evs, Inr (Some result)))))"

text \<open>
  The body of the \<^verbatim>\<open>while True\<close> loop. \<open>Inl e\<close> is an exception that reaches the
  \<^verbatim>\<open>except\<close> around the loop and ends it; \<open>Inr st\<close> is the state the next iteration
  starts from. A failed capture sleeps and goes to the next iteration with \<^verbatim>\<open>continue\<close>.
\<close>

definition tick :: "loop_state \<Rightarrow> tick_env \<Rightarrow> event list \<times> (exn + loop_state)" where
  "tick st env =
     (case frame_res env of
        Inl e \<Rightarrow> ([EvCapture, EvLog ''Camera capture error'', EvSleep 100], Inr st)
      | Inr fr \<Rightarrow>
          if falsy fr then ([EvCapture, EvLog ''Failed to capture frame'', EvSleep 100], Inr st)
          else
            (case classify_frame env fr of
               (evs, Inl e) \<Rightarrow> (EvCapture # evs, Inl e)
             | (evs, Inr None) \<Rightarrow> (EvCapture # evs, Inr st)
             | (evs, Inr (Some result)) \<Rightarrow>
                 (case log_change result (last_class st) of
                    (evs_log, Inl e) \<Rightarrow> (EvCapture # evs @ evs_log, Inl e)
                  | (evs_log, Inr last') \<Rightarrow>
                      (case handle_client (update_results (http_server st) result) (client env) of
                         (evs_http, Some e) \<Rightarrow> (EvCapture # evs @ evs_log @ evs_http, Inl e)
                       | (evs_http, None) \<Rightarrow>
                           (EvCapture # evs @ evs_log @ evs_http @ [EvGcCollect, EvSleep 50],
                            Inr \<lparr>http_server = update_results (http_server st) result,
                                 last_class = last'\<rparr>)))))"

text \<open>
  The end of an iteration whose frame was classified as \<open>result\<close>, after the events
  \<open>evs\<close> of inference and \<open>evs_log\<close> of the change notice: the cache is updated, the
  responder is driven on the updated server, then memory is collected and the loop sleeps.
\<close>

definition tick_rest ::
  "loop_state \<Rightarrow> tick_env \<Rightarrow> event list \<Rightarrow> classification_result \<Rightarrow> event list
     \<Rightarrow> event list \<times> (exn + loop_state)" where
  "tick_rest st env evs result evs_log =
     (case handle_client (update_results (http_server st) result) (client env) of
        (evs_http, Some e) \<Rightarrow> (EvCapture # evs @ evs_log @ evs_http, Inl e)
      | (evs_http, None) \<Rightarrow>
          (EvCapture # evs @ evs_log @ evs_http @ [EvGcCollect, EvSleep 50],
           Inr \<lparr>http_server = update_results (http_server st) result,
                last_class = predicted_class result\<rparr>))"

subsection \<open>Reading an event list\<close>

text \<open>The ports \<^verbatim>\<open>bind\<close> was called on, in order.\<close>

fun bind_calls :: "event list \<Rightarrow> nat list" where
  "bind_calls [] = []"
| "bind_calls (EvBind q # evs) = q # bind_calls evs"
| "bind_calls (_ # evs) = bind_calls evs"

text \<open>The arguments of the \<^verbatim>\<open>send\<close> calls, in order.\<close>

fun sent :: "event list \<Rightarrow> payload list" where
  "sent [] = []"
| "sent (EvSend p # evs) = p # sent evs"
| "sent (_ # evs) = sent evs"

text \<open>The calls that make up inference, and those that drive the responder.\<close>

fun is_engine_event :: "event \<Rightarrow> bool" where
  "is_engine_event EvSetInput = True"
| "is_engine_event EvInvoke = True"
| "is_engine_event EvGetOutput = True"
| "is_engine_event _ = False"

fun is_responder_event :: "event \<Rightarrow> bool" where
  "is_responder_event (EvSetBlocking b) = True"
| "is_responder_event EvAccept = True"
| "is_responder_event EvRecv = True"
| "is_responder_event (EvSend p) = True"
| "is_responder_event EvClose = True"
| "is_responder_event _ = False"

text \<open>
  What a response can be when the cache holds \<open>r\<close>: the JSON of \<open>r\<close>, the status page
  of \<open>r\<close>, or a part of the image route's answer, which does not read the cache.
\<close>

fun reflects :: "classification_result \<Rightarrow> payload \<Rightarrow> bool" where
  "reflects r (Json h r') = (h = json_header \<and> r' = r)"
| "reflects r (Text t) =
     (t = html_header @ status_page r \<or> t = jpeg_header \<or> t = error_500)"
| "reflects r (Raw bs) = True"

text \<open>
  The shape every cached result has: three probabilities and a class index in
  \<open>[0, 3)\<close>, which is the first arg max unless the result is one of the two fixed
  defaults with class 0.
\<close>

definition cache_shape :: "classification_result \<Rightarrow> bool" where
  "cache_shape r \<longleftrightarrow>
     length (probabilities r) = 3 \<and> 0 \<le> predicted_class r \<and> predicted_class r < 3
       \<and> (is_first_argmax (probabilities r) (nat (predicted_class r))
            \<or> predicted_class r = 0
               \<and> (probabilities r = [0.33, 0.34, 0.33] \<or> probabilities r = [0.33, 0.33, 0.34]))"

subsection \<open>Concrete environments\<close>

text \<open>A socket whose port is free, and one whose first \<^verbatim>\<open>bind\<close> meets a port in use.\<close>

definition free_socket :: socket_env where
  "free_socket = \<lparr>bind_res = (\<lambda>k p. None), listen_res = None\<rparr>"

definition busy_socket :: socket_env where
  "busy_socket =
     \<lparr>bind_res = (\<lambda>k p. if k = 0 then Some (OSError [112]) else None), listen_res = None\<rparr>"

definition denied_socket :: socket_env where
  "denied_socket = \<lparr>bind_res = (\<lambda>k p. Some (OSError [13])), listen_res = None\<rparr>"

definition default_results :: classification_result where
  "default_results = \<lparr>timestamp = 0, probabilities = [0.33, 0.34, 0.33], predicted_class = 0\<rparr>"

definition fresh_server :: http_server where
  "fresh_server = \<lparr>port = 80, latest_results = default_results\<rparr>"

definition fresh_state :: loop_state where
  "fresh_state = \<lparr>http_server = fresh_server, last_class = - 1\<rparr>"

text \<open>A connected client that sent \<open>request\<close> and accepts every write; the camera works.\<close>

definition client_sending :: "string \<Rightarrow> client_env" where
  "client_sending request =
     \<lparr>accept_res = None, recv_res = Inr request,
      jpg_capture_res = Inr (PyBytes [255, 216]), send_res = (\<lambda>k. None)\<rparr>"

definition working_engine :: engine_env where
  "working_engine =
     \<lparr>set_input_res = (\<lambda>x. None), invoke_res = (\<lambda>x. None),
      get_output_res = (\<lambda>x. Inr [0.1, 0.7, 0.2])\<rparr>"

definition failing_engine :: engine_env where
  "failing_engine =
     \<lparr>set_input_res = (\<lambda>x. None), invoke_res = (\<lambda>x. Some (OtherException ''invoke failed'')),
      get_output_res = (\<lambda>x. Inr [0.1, 0.7, 0.2])\<rparr>"

text \<open>An iteration whose capture returns \<^verbatim>\<open>None\<close> while a client waits for \<^verbatim>\<open>/classify\<close>.\<close>

definition missed_capture :: tick_env where
  "missed_capture =
     \<lparr>frame_res = Inr PyNone, ticks_ms = 1000, engine = working_engine,
      client = client_sending ''GET /classify HTTP/1.1''\<rparr>"

text \<open>Iterations whose capture returns four bytes, with a working and a failing interpreter.\<close>

definition good_tick :: tick_env where
  "good_tick =
     \<lparr>frame_res = Inr (PyBytes [255, 0, 128, 7]), ticks_ms = 1000, engine = working_engine,
      client = client_sending ''GET /classify HTTP/1.1''\<rparr>"

definition failed_inference_tick :: tick_env where
  "failed_inference_tick =
     \<lparr>frame_res = Inr (PyBytes [255, 0, 128, 7]), ticks_ms = 1000, engine = failing_engine,
      client = client_sending ''GET /classify HTTP/1.1''\<rparr>"

section \<open>Properties\<close>

subsection \<open>Facts about max and index\<close>

lemma foldl_max_ge_start: "m \<le> foldl (\<lambda>m y. if y > m then y else m) m (xs :: real list)"
proof (induction xs arbitrary: m)
  case Nil
  show ?case by simp
next
  case (Cons x xs)
  have "(if x > m then x else m) \<le> foldl (\<lambda>m y. if y > m then y else m) (if x > m then x else m) xs"
    by (rule Cons.IH)
  then show ?case by (simp split: if_splits)
qed

lemma foldl_max_ge_elem:
  "x \<in> set xs \<Longrightarrow> x \<le> foldl (\<lambda>m y. if y > m then y else m) m (xs :: real list)"
proof (induction xs arbitrary: m)
  case Nil
  then show ?case by simp
next
  case (Cons a xs)
  show ?case
  proof (cases "x = a")
    case True
    have "(if a > m then a else m) \<le> foldl (\<lambda>m y. if y > m then y else m) (if a > m then a else m) xs"
      by (rule foldl_max_ge_start)
    with True show ?thesis by (simp split: if_splits)
  next
    case False
    with Cons.prems have "x \<in> set xs" by simp
    then show ?thesis using Cons.IH by simp
  qed
qed

lemma foldl_max_mem:
  "foldl (\<lambda>m y. if y > m then y else m) m (xs :: real list) \<in> set (m # xs)"
proof (induction xs arbitrary: m)
  case Nil
  show ?case by simp
next
  case (Cons a xs)
  have "foldl (\<lambda>m y. if y > m then y else m) (if a > m then a else m) xs
          \<in> set ((if a > m then a else m) # xs)"
    by (rule Cons.IH)
  then show ?case by (auto split: if_splits)
qed

lemma py_max_props:
  assumes "xs \<noteq> []"
  obtains m where "py_max xs = Inr m" "m \<in> set xs" "\<forall>x \<in> set xs. x \<le> m"
proof (cases xs)
  case Nil
  with assms show ?thesis by simp
next
  case (Cons a as)
  let ?m = "foldl (\<lambda>m y. if y > m then y else m) a as"
  have 1: "py_max xs = Inr ?m" using Cons by simp
  have 2: "?m \<in> set xs" using foldl_max_mem [of a as] Cons by simp
  have 3: "\<forall>x \<in> set xs. x \<le> ?m"
    using foldl_max_ge_start [of a as] foldl_max_ge_elem [of _ as a] Cons by auto
  from 1 2 3 that show ?thesis by blast
qed

lemma py_index_props:
  assumes "v \<in> set xs"
  obtains k where "py_index xs v = Inr k" "k < length xs" "xs ! k = v" "\<forall>j < k. xs ! j \<noteq> v"
proof -
  from assms have "\<exists>k. py_index xs v = Inr k \<and> k < length xs \<and> xs ! k = v \<and> (\<forall>j < k. xs ! j \<noteq> v)"
  proof (induction xs)
    case Nil
    then show ?case by simp
  next
    case (Cons a xs)
    show ?case
    proof (cases "a = v")
      case True
      then show ?thesis by simp
    next
      case False
      with Cons.prems have "v \<in> set xs" by simp
      from Cons.IH [OF this] obtain k where
        k: "py_index xs v = Inr k" "k < length xs" "xs ! k = v" "\<forall>j < k. xs ! j \<noteq> v"
        by blast
      have "\<forall>j < Suc k. (a # xs) ! j \<noteq> v"
        using False k(4) by (auto simp: nth_Cons split: nat.splits)
      with False k show ?thesis by simp
    qed
  qed
  with that show ?thesis by blast
qed

lemma process_result_ge3:
  assumes "length out \<ge> 3"
  obtains k where
    "process_result now out =
       Inr \<lparr>timestamp = now, probabilities = take 3 out, predicted_class = int k\<rparr>"
    "k < 3" "is_first_argmax (take 3 out) k"
proof -
  from assms have ne: "take 3 out \<noteq> []" by auto
  from py_max_props [OF ne] obtain m where
    m: "py_max (take 3 out) = Inr m" "m \<in> set (take 3 out)" "\<forall>x \<in> set (take 3 out). x \<le> m"
    by blast
  from m(2) have "m \<in> set out" by (rule in_set_takeD)
  from py_index_props [OF this] obtain k where
    k: "py_index out m = Inr k" "k < length out" "out ! k = m" "\<forall>j < k. out ! j \<noteq> m"
    by blast
  from m(2) obtain i where i: "i < 3" "out ! i = m"
    using assms by (auto simp: in_set_conv_nth)
  have k3: "k < 3"
  proof (rule ccontr)
    assume "\<not> k < 3"
    with i(1) have "i < k" by simp
    with k(4) i(2) show False by blast
  qed
  have le: "out ! j \<le> out ! k" if "j < 3" for j
  proof -
    from that assms have "out ! j \<in> set (take 3 out)"
      by (auto simp: in_set_conv_nth intro!: exI [of _ j])
    with m(3) k(3) show ?thesis by simp
  qed
  have lt: "out ! j < out ! k" if "j < k" for j
  proof -
    from that k3 have "j < 3" by simp
    from le [OF this] have "out ! j \<le> out ! k" .
    moreover from k(4) that k(3) have "out ! j \<noteq> out ! k" by simp
    ultimately show ?thesis by simp
  qed
  have am: "is_first_argmax (take 3 out) k"
    using assms k3 le lt by (simp add: is_first_argmax_def list_all_iff)
  have "process_result now out =
          Inr \<lparr>timestamp = now, probabilities = take 3 out, predicted_class = int k\<rparr>"
    using assms m(1) k(1) by (simp add: process_result_def)
  with k3 am that show ?thesis by blast
qed

lemma process_result_short:
  "length out < 3 \<Longrightarrow>
   process_result now out =
     Inr \<lparr>timestamp = now, probabilities = [0.33, 0.33, 0.34], predicted_class = 0\<rparr>"
  by (simp add: process_result_def)

subsection \<open>Claims about process_result\<close>

text \<open>
  C10. For every inference output with at least 3 entries, also a longer one,
  \<^verbatim>\<open>process_result\<close> returns normally, stores exactly the first 3 entries as the
  probabilities, and \<open>predicted_class\<close> is the first index at which the maximum of those
  3 entries occurs; so it lies in \<open>[0, 3)\<close>.
\<close>

theorem process_result_first_three:
  assumes "3 \<le> length output"
  shows "\<exists>r. process_result now output = Inr r
           \<and> probabilities r = take 3 output
           \<and> 0 \<le> predicted_class r \<and> predicted_class r < 3
           \<and> is_first_argmax (take 3 output) (nat (predicted_class r))"
proof -
  from process_result_ge3 [OF assms, of now] obtain k where
    k: "process_result now output =
          Inr \<lparr>timestamp = now, probabilities = take 3 output, predicted_class = int k\<rparr>"
       "k < 3" "is_first_argmax (take 3 output) k"
    by blast
  then show ?thesis by simp
qed

theorem process_result_first_three_witness:
  "3 \<le> length [0.2, 0.5, 0.5, 0.9 :: real]
   \<and> (\<exists>r. process_result 7 [0.2, 0.5, 0.5, 0.9] = Inr r
          \<and> probabilities r = [0.2, 0.5, 0.5] \<and> predicted_class r = 1
          \<and> is_first_argmax [0.2, 0.5, 0.5] 1)"
  using process_result_first_three [of "[0.2, 0.5, 0.5, 0.9]" 7]
  by (simp add: process_result_def)

subsection \<open>preprocess_image\<close>

lemma int_div_mult_le:
  assumes "0 < (b::int)"
  shows "(a div b) * b \<le> a"
proof -
  have "a div b * b = a - a mod b" by (simp add: minus_mod_eq_div_mult)
  moreover have "0 \<le> a mod b" using assms by simp
  ultimately show ?thesis by linarith
qed

lemma py_range_bounds:
  assumes "0 < step" "i \<in> set (py_range 0 stop step)"
  shows "0 \<le> i \<and> i < stop"
proof -
  let ?n = "nat ((stop + step - 1) div step)"
  from assms(2) obtain k where k: "k < ?n" "i = int k * step"
    by (auto simp: py_range_def)
  from k(1) have "int k + 1 \<le> (stop + step - 1) div step" by linarith
  then have "(int k + 1) * step \<le> ((stop + step - 1) div step) * step"
    using assms(1) by (simp add: mult_right_mono)
  also have "\<dots> \<le> stop + step - 1"
    using assms(1) by (rule int_div_mult_le)
  finally have "int k * step + step \<le> stop + step - 1" by (simp add: algebra_simps)
  then have "i < stop" using k(2) by simp
  moreover have "0 \<le> i" using k(2) assms(1) by simp
  ultimately show ?thesis by simp
qed

lemma preprocess_loop_ok:
  assumes "\<forall>i \<in> set idx. 0 \<le> i \<and> i + 2 < int (length frame)"
  shows "preprocess_loop frame idx acc = Inr (acc @ concat (map (triple frame) idx))"
  using assms
proof (induction idx arbitrary: acc)
  case Nil
  show ?case by simp
next
  case (Cons i idx)
  from Cons.prems have i: "0 \<le> i" "i + 2 < int (length frame)" by simp_all
  from Cons.prems have rest: "\<forall>i \<in> set idx. 0 \<le> i \<and> i + 2 < int (length frame)" by simp
  have r: "py_nth frame i = Inr (frame ! nat i)" using i by (simp add: py_nth_def)
  have g: "py_nth frame (i + 1) = Inr (frame ! nat (i + 1))" using i by (simp add: py_nth_def)
  have b: "py_nth frame (i + 2) = Inr (frame ! nat (i + 2))" using i by (simp add: py_nth_def)
  show ?case using Cons.IH [OF rest] by (simp add: r g b triple_def)
qed

lemma byte_unit: "0 \<le> real (unat (w :: 8 word)) / 255 \<and> real (unat w) / 255 \<le> 1"
proof -
  have "unat w < 2 ^ 8" using unsigned_less [of w] by simp
  then have "unat w \<le> 255" by simp
  then have "real (unat w) \<le> 255" by linarith
  moreover have "0 \<le> real (unat w)" by (rule of_nat_0_le_iff)
  ultimately show ?thesis by simp
qed

lemma triple_unit:
  assumes "x \<in> set (concat (map (triple frame) idx))"
  shows "0 \<le> x \<and> x \<le> 1"
proof -
  from assms obtain i where "x \<in> set (triple frame i)" by auto
  then obtain w :: "8 word" where "x = real (unat w) / 255"
    by (auto simp add: triple_def simp del: of_nat_unat)
  then show ?thesis using byte_unit [of w] by (simp del: of_nat_unat)
qed

lemma stride_pos: "0 < stride frame"
  by (simp add: stride_def)

lemma step_stride: "max 1 (int (length frame) div int tensor_len) = int (stride frame)"
proof -
  have "max 1 (int (length frame div tensor_len)) = int (max 1 (length frame div tensor_len))"
    by (simp only: of_nat_max of_nat_1)
  then show ?thesis by (simp only: stride_def zdiv_int)
qed

lemma range_count:
  "nat ((int (length frame) - 3 + int (stride frame) - 1) div int (stride frame))
     = (length frame - 3 + stride frame - 1) div stride frame"
proof (cases "3 \<le> length frame")
  case True
  have s: "1 \<le> stride frame" using stride_pos [of frame] by simp
  have "int (length frame) - 3 + int (stride frame) - 1 = int (length frame - 3 + stride frame - 1)"
    using True s by (simp add: of_nat_diff)
  then show ?thesis by (simp only: zdiv_int [symmetric] nat_int)
next
  case False
  have s: "1 \<le> stride frame" using stride_pos [of frame] by simp
  from False have l: "length frame - 3 = 0" by simp
  have a: "(length frame - 3 + stride frame - 1) div stride frame = 0"
    using s l by simp
  have "int (length frame) - 3 + int (stride frame) - 1 \<le> int (stride frame) - 1"
    using False by linarith
  moreover have "0 < int (stride frame)" using s by simp
  ultimately have "(int (length frame) - 3 + int (stride frame) - 1) div int (stride frame)
      \<le> (int (stride frame) - 1) div int (stride frame)"
    by (rule zdiv_mono1)
  moreover have "(int (stride frame) - 1) div int (stride frame) = 0"
    using s by (simp add: div_pos_pos_trivial)
  ultimately have "nat ((int (length frame) - 3 + int (stride frame) - 1) div int (stride frame)) = 0"
    by simp
  then show ?thesis by (simp only: a)
qed

lemma triples_sampled:
  "concat (map (triple frame) (py_range 0 (int (length frame) - 3) (int (stride frame))))
     = sampled frame"
proof -
  let ?n = "(length frame - 3 + stride frame - 1) div stride frame"
  have "py_range 0 (int (length frame) - 3) (int (stride frame))
          = map (\<lambda>k. 0 + int k * int (stride frame)) [0..<?n]"
    by (simp only: py_range_def diff_zero range_count)
  moreover have "triple frame (0 + int k * int (stride frame))
      = [real (unat (frame ! (k * stride frame))) / 255,
         real (unat (frame ! (k * stride frame + 1))) / 255,
         real (unat (frame ! (k * stride frame + 2))) / 255]" for k
    by (simp add: triple_def nat_add_distrib nat_mult_distrib)
  ultimately show ?thesis by (simp add: sampled_def o_def)
qed

lemma preprocess_image_bytes:
  "preprocess_image (PyBytes frame) = Inr (pad_or_truncate (sampled frame))"
proof -
  let ?idx = "py_range 0 (int (length frame) - 3) (int (stride frame))"
  have "\<forall>i \<in> set ?idx. 0 \<le> i \<and> i + 2 < int (length frame)"
    using py_range_bounds [of "int (stride frame)" _ "int (length frame) - 3"] stride_pos [of frame]
    by fastforce
  then have "preprocess_loop frame ?idx [] = Inr ([] @ concat (map (triple frame) ?idx))"
    by (rule preprocess_loop_ok)
  then have "preprocess_loop frame ?idx [] = Inr (sampled frame)"
    by (simp add: triples_sampled)
  then show ?thesis
    by (simp add: preprocess_image_def step_stride pad_or_truncate_def Let_def)
qed

lemma sampled_unit: "x \<in> set (sampled frame) \<Longrightarrow> 0 \<le> x \<and> x \<le> 1"
  using triple_unit [of x frame "py_range 0 (int (length frame) - 3) (int (stride frame))"]
  by (simp only: triples_sampled)

lemma pad_or_truncate_length: "length (pad_or_truncate xs) = tensor_len"
  by (simp add: pad_or_truncate_def)

lemma pad_or_truncate_unit:
  assumes "\<forall>x \<in> set xs. 0 \<le> x \<and> x \<le> 1" "y \<in> set (pad_or_truncate xs)"
  shows "0 \<le> y \<and> y \<le> 1"
proof -
  from assms(2) have "y \<in> set (take tensor_len xs) \<or> y = 0"
    by (auto simp: pad_or_truncate_def)
  then show ?thesis using assms(1) by (auto dest: in_set_takeD)
qed

text \<open>
  C2. For every input frame \<^verbatim>\<open>preprocess_image\<close> returns (it never raises) a list of
  exactly \<open>224 * 224 * 3\<close> values, each in \<open>[0, 1]\<close>. An input that is not a byte buffer
  gives the all-zero list of that length; a byte buffer is sampled at stride
  \<open>max 1 (length frame div (224 * 224 * 3))\<close>, each byte divided by 255, and the samples
  are zero-padded or truncated to that length.
\<close>

theorem preprocess_image_fixed_size:
  "\<exists>t. preprocess_image fr = Inr t
       \<and> length t = 224 * 224 * 3
       \<and> (\<forall>x \<in> set t. 0 \<le> x \<and> x \<le> 1)
       \<and> (case fr of
            PyBytes frame \<Rightarrow> t = pad_or_truncate (sampled frame)
          | _ \<Rightarrow> t = replicate (224 * 224 * 3) 0)"
proof (cases fr)
  case PyNone
  then show ?thesis by (simp add: preprocess_image_def tensor_len_def)
next
  case (PyBytes frame)
  have "\<forall>x \<in> set (pad_or_truncate (sampled frame)). 0 \<le> x \<and> x \<le> 1"
    using pad_or_truncate_unit [of "sampled frame"] sampled_unit [of _ frame] by blast
  moreover have "length (pad_or_truncate (sampled frame)) = 224 * 224 * 3"
    by (simp only: pad_or_truncate_length tensor_len_def)
  ultimately show ?thesis using PyBytes by (simp add: preprocess_image_bytes)
next
  case PyOther
  then show ?thesis by (simp add: preprocess_image_def tensor_len_def)
qed

theorem preprocess_image_fixed_size_witness:
  "\<exists>t. preprocess_image (PyBytes [255, 0, 128, 7]) = Inr t
       \<and> length t = 224 * 224 * 3
       \<and> take 3 t = [1, 0, 128 / 255]
       \<and> 1 \<in> set t \<and> (0 :: real) \<le> 1 \<and> (1 :: real) \<le> 1"
proof -
  from preprocess_image_fixed_size [of "PyBytes [255, 0, 128, 7]"] obtain t where
    t: "preprocess_image (PyBytes [255, 0, 128, 7]) = Inr t" "length t = 224 * 224 * 3"
       "t = pad_or_truncate (sampled [255, 0, 128, 7])"
    by auto
  have s: "sampled [255, 0, 128, 7] = [1, 0, 128 / 255]"
    by (simp add: sampled_def stride_def tensor_len_def)
  have "take 3 t = [1, 0, 128 / 255]"
    by (simp add: t(3) s pad_or_truncate_def tensor_len_def)
  moreover have "1 \<in> set t"
    by (simp add: t(3) s pad_or_truncate_def tensor_len_def)
  ultimately show ?thesis using t(1,2) by simp
qed

subsection \<open>HTTPServer.__init__\<close>

lemma py_nth_0_Cons: "py_nth (a # as) 0 = Inr a"
  by (simp add: py_nth_def)

lemma py_nth_0_Nil: "py_nth [] 0 = Inl IndexError"
  by (simp add: py_nth_def)

text \<open>
  C6. At start-up, when binding the primary port fails with errno 112 (address in use),
  \<^verbatim>\<open>bind\<close> is called exactly once more, on port 8080. A bind failure for any other
  reason leaves \<^verbatim>\<open>__init__\<close> as an exception without a second \<^verbatim>\<open>bind\<close>, and so does a
  failure on port 8080.
\<close>

theorem bind_falls_back_once:
  "(bind_res env 0 p = None \<longrightarrow>
      bind_calls (fst (HTTPServer_init env p)) = [p]
      \<and> snd (HTTPServer_init env p) = start_listening env p)
   \<and> (bind_res env 0 p = Some (OSError (112 # rest)) \<longrightarrow>
        bind_calls (fst (HTTPServer_init env p)) = [p, 8080]
        \<and> (case bind_res env 1 8080 of
             Some e \<Rightarrow> snd (HTTPServer_init env p) = Inl e
           | None \<Rightarrow> snd (HTTPServer_init env p) = start_listening env 8080))
   \<and> (bind_res env 0 p = Some e \<and> (\<forall>args. e \<noteq> OSError (112 # args)) \<longrightarrow>
        bind_calls (fst (HTTPServer_init env p)) = [p]
        \<and> snd (HTTPServer_init env p) = Inl (if e = OSError [] then IndexError else e))"
proof (intro conjI impI)
  assume "bind_res env 0 p = None"
  then show "bind_calls (fst (HTTPServer_init env p)) = [p]"
    by (simp add: HTTPServer_init_def split: sum.splits)
next
  assume "bind_res env 0 p = None"
  then show "snd (HTTPServer_init env p) = start_listening env p"
    by (simp add: HTTPServer_init_def split: sum.splits)
next
  assume "bind_res env 0 p = Some (OSError (112 # rest))"
  then show "bind_calls (fst (HTTPServer_init env p)) = [p, 8080]"
    by (simp add: HTTPServer_init_def py_nth_0_Cons split: sum.splits option.splits)
next
  assume "bind_res env 0 p = Some (OSError (112 # rest))"
  then show "case bind_res env 1 8080 of
             Some e \<Rightarrow> snd (HTTPServer_init env p) = Inl e
           | None \<Rightarrow> snd (HTTPServer_init env p) = start_listening env 8080"
    by (simp add: HTTPServer_init_def py_nth_0_Cons split: sum.splits option.splits)
next
  assume a: "bind_res env 0 p = Some e \<and> (\<forall>args. e \<noteq> OSError (112 # args))"
  show "bind_calls (fst (HTTPServer_init env p)) = [p]"
  proof (cases e)
    case (OSError args)
    with a show ?thesis
      by (cases args) (simp_all add: HTTPServer_init_def py_nth_0_Cons py_nth_0_Nil)
  qed (use a in \<open>simp_all add: HTTPServer_init_def\<close>)
next
  assume a: "bind_res env 0 p = Some e \<and> (\<forall>args. e \<noteq> OSError (112 # args))"
  show "snd (HTTPServer_init env p) = Inl (if e = OSError [] then IndexError else e)"
  proof (cases e)
    case (OSError args)
    with a show ?thesis
      by (cases args) (simp_all add: HTTPServer_init_def py_nth_0_Cons py_nth_0_Nil)
  qed (use a in \<open>simp_all add: HTTPServer_init_def\<close>)
qed

theorem bind_falls_back_once_witness:
  "bind_res busy_socket 0 80 = Some (OSError [112])
   \<and> bind_calls (fst (HTTPServer_init busy_socket 80)) = [80, 8080]
   \<and> snd (HTTPServer_init busy_socket 80) = Inr \<lparr>port = 8080, latest_results = default_results\<rparr>
   \<and> bind_res denied_socket 0 80 = Some (OSError [13])
   \<and> bind_calls (fst (HTTPServer_init denied_socket 80)) = [80]
   \<and> snd (HTTPServer_init denied_socket 80) = Inl (OSError [13])
   \<and> bind_res free_socket 0 80 = None
   \<and> bind_calls (fst (HTTPServer_init free_socket 80)) = [80]"
  using bind_falls_back_once [of busy_socket 80 "[]" "OSError [112]"]
    bind_falls_back_once [of denied_socket 80 "[]" "OSError [13]"]
    bind_falls_back_once [of free_socket 80 "[]" "OSError [13]"]
  by (simp add: busy_socket_def denied_socket_def free_socket_def start_listening_def
        default_results_def)

subsection \<open>run_inference and the classification of a frame\<close>

lemma run_inference_raises:
  assumes "engine_raises eng x"
  shows "\<exists>evs. run_inference eng x = (evs, Inr [0.33, 0.33, 0.34])"
  using assms
  by (auto simp: engine_raises_def run_inference_def run_inference_try_def isl_def
      split: option.splits sum.splits)

lemma run_inference_total: "\<exists>evs out. run_inference eng x = (evs, Inr out)"
  by (auto simp: run_inference_def run_inference_try_def split: option.splits sum.splits)

lemma run_inference_quiet:
  "\<not> list_ex is_responder_event (fst (run_inference eng x))"
  by (auto simp: run_inference_def run_inference_try_def split: option.splits sum.splits)

lemma process_result_fallback:
  "process_result now [0.33, 0.33, 0.34]
     = Inr \<lparr>timestamp = now, probabilities = [0.33, 0.33, 0.34], predicted_class = 2\<rparr>"
  by (simp add: process_result_def)

lemma process_result_shape: "\<exists>r. process_result now out = Inr r \<and> cache_shape r"
proof (cases "3 \<le> length out")
  case True
  from process_result_ge3 [OF True, of now] obtain k where
    k: "process_result now out =
          Inr \<lparr>timestamp = now, probabilities = take 3 out, predicted_class = int k\<rparr>"
       "k < 3" "is_first_argmax (take 3 out) k"
    by blast
  then show ?thesis using True by (simp add: cache_shape_def)
next
  case False
  then show ?thesis by (simp add: process_result_short cache_shape_def)
qed

lemma preprocess_image_nonempty:
  "\<exists>t. preprocess_image fr = Inr t \<and> t \<noteq> []"
proof -
  have "\<exists>t. preprocess_image fr = Inr t \<and> length t = tensor_len"
  proof (cases fr)
    case (PyBytes frame)
    then show ?thesis by (simp add: preprocess_image_bytes pad_or_truncate_length)
  qed (simp_all add: preprocess_image_def)
  then show ?thesis by (auto simp: tensor_len_def)
qed

lemma classify_frame_total:
  obtains x evs out r where
    "preprocess_image fr = Inr x" "run_inference (engine env) x = (evs, Inr out)"
    "process_result (ticks_ms env) out = Inr r" "cache_shape r"
    "classify_frame env fr = (evs, Inr (Some r))"
proof -
  from preprocess_image_nonempty [of fr] obtain x where
    x: "preprocess_image fr = Inr x" "x \<noteq> []" by blast
  from run_inference_total [of "engine env" x] obtain evs out where
    i: "run_inference (engine env) x = (evs, Inr out)" by blast
  from process_result_shape [of "ticks_ms env" out] obtain r where
    r: "process_result (ticks_ms env) out = Inr r" "cache_shape r" by blast
  have "classify_frame env fr = (evs, Inr (Some r))"
    by (simp add: classify_frame_def x i r)
  with x i r that show ?thesis by blast
qed

lemma log_change_total:
  assumes "cache_shape r"
  shows "\<exists>evs. log_change r lc = (evs, Inr (predicted_class r)) \<and> \<not> list_ex is_responder_event evs"
proof -
  from assms have pc: "0 \<le> predicted_class r" "predicted_class r < 3"
    and len: "length (probabilities r) = 3"
    by (simp_all add: cache_shape_def)
  from pc obtain name where n: "py_nth class_names (predicted_class r) = Inr name"
    by (simp add: py_nth_def class_names_def)
  from len have "probabilities r \<noteq> []" by auto
  from py_max_props [OF this] obtain m where m: "py_max (probabilities r) = Inr m" by blast
  show ?thesis by (simp add: log_change_def n m)
qed

lemma tick_captured:
  assumes "frame_res env = Inr fr" "\<not> falsy fr"
  obtains evs r evs_log where
    "classify_frame env fr = (evs, Inr (Some r))" "cache_shape r"
    "\<not> list_ex is_responder_event (evs @ evs_log)"
    "tick st env = tick_rest st env evs r evs_log"
proof -
  from classify_frame_total [of fr env] obtain x evs out r where
    c: "preprocess_image fr = Inr x" "run_inference (engine env) x = (evs, Inr out)"
       "cache_shape r" "classify_frame env fr = (evs, Inr (Some r))"
    by metis
  from log_change_total [OF c(3), of "last_class st"] obtain evs_log where
    l: "log_change r (last_class st) = (evs_log, Inr (predicted_class r))"
       "\<not> list_ex is_responder_event evs_log"
    by blast
  have q: "\<not> list_ex is_responder_event evs"
    using run_inference_quiet [of "engine env" x] c(2) by simp
  have "tick st env = tick_rest st env evs r evs_log"
    using assms by (simp add: tick_def tick_rest_def c(4) l(1))
  with c l q that show ?thesis by simp
qed

lemma classify_frame_engine_raises:
  assumes "preprocess_image fr = Inr x" "engine_raises (engine env) x"
  shows "\<exists>evs. run_inference (engine env) x = (evs, Inr [0.33, 0.33, 0.34])
           \<and> classify_frame env fr =
               (evs, Inr (Some \<lparr>timestamp = ticks_ms env, probabilities = [0.33, 0.33, 0.34],
                                predicted_class = 2\<rparr>))"
proof -
  from preprocess_image_nonempty [of fr] assms(1) have ne: "x \<noteq> []" by auto
  from run_inference_raises [OF assms(2)] obtain evs where
    i: "run_inference (engine env) x = (evs, Inr [0.33, 0.33, 0.34])" by blast
  have "classify_frame env fr =
          (case run_inference (engine env) x of
             (evs, Inl e) \<Rightarrow> (evs, Inl e)
           | (evs, Inr output) \<Rightarrow>
               (case process_result (ticks_ms env) output of
                  Inl e \<Rightarrow> (evs, Inl e)
                | Inr result \<Rightarrow> (evs, Inr (Some result))))"
    using ne by (simp add: classify_frame_def assms(1))
  also have "\<dots> = (evs, Inr (Some \<lparr>timestamp = ticks_ms env, probabilities = [0.33, 0.33, 0.34],
                                predicted_class = 2\<rparr>))"
    by (simp only: i prod.case sum.case process_result_fallback)
  finally show ?thesis using i by blast
qed

lemma failing_engine_raises: "engine_raises failing_engine x"
  by (simp add: engine_raises_def failing_engine_def)

lemma request_path_classify: "request_path ''GET /classify HTTP/1.1'' = Inr ''/classify''"
  by (simp add: request_path_def py_nth_def)

lemma request_path_status: "request_path ''GET /status HTTP/1.1'' = Inr ''/status''"
  by (simp add: request_path_def py_nth_def)

lemma request_path_garbage: "request_path ''GARBAGE'' = Inl IndexError"
  by (simp add: request_path_def py_nth_def)

subsection \<open>handle_client\<close>

lemma sent_append: "sent (xs @ ys) = sent xs @ sent ys"
  by (induction xs rule: sent.induct) simp_all

lemma sent_quiet: "\<not> list_ex is_responder_event evs \<Longrightarrow> sent evs = []"
  by (induction evs rule: sent.induct) simp_all

lemma serve_jpg_sent:
  "p \<in> set (sent (fst (serve_jpg env))) \<Longrightarrow> reflects r p"
  by (auto simp: serve_jpg_def send_500_def split: sum.splits option.splits frame.splits)

lemma dispatch_sent:
  assumes "p \<in> set (sent (fst (dispatch srv env path)))"
  shows "reflects (latest_results srv) p"
proof -
  consider (json) "path = ''/classify'' \<or> path = ''/data'' \<or> path = ''/api''"
    | (jpg) "\<not> (path = ''/classify'' \<or> path = ''/data'' \<or> path = ''/api'')"
            "path = ''/jpg'' \<or> path = ''/capture''"
    | (page) "\<not> (path = ''/classify'' \<or> path = ''/data'' \<or> path = ''/api'')"
             "\<not> (path = ''/jpg'' \<or> path = ''/capture'')"
    by blast
  then show ?thesis
  proof cases
    case json
    then have "dispatch srv env path =
        (case send_res env 0 of
           Some e \<Rightarrow> ([EvSend (Json json_header (latest_results srv))], Some e)
         | None \<Rightarrow> ([EvSend (Json json_header (latest_results srv)), EvClose], None))"
      unfolding dispatch_def by (simp only: if_True)
    with assms show ?thesis by (auto split: option.splits)
  next
    case jpg
    then have "dispatch srv env path =
        (case serve_jpg env of
           (evs, Some e) \<Rightarrow> (evs, Some e)
         | (evs, None) \<Rightarrow> (evs @ [EvClose], None))"
      unfolding dispatch_def by (simp only: if_True if_False)
    with assms have "p \<in> set (sent (fst (serve_jpg env)))"
      by (auto simp: sent_append split: prod.splits option.splits)
    then show ?thesis by (rule serve_jpg_sent)
  next
    case page
    then have "dispatch srv env path =
        (case send_res env 0 of
           Some e \<Rightarrow>
             ([EvSend (Text (html_header @ status_page (latest_results srv)))], Some e)
         | None \<Rightarrow>
             ([EvSend (Text (html_header @ status_page (latest_results srv))), EvClose], None))"
      unfolding dispatch_def by (simp only: if_False)
    with assms show ?thesis by (auto split: option.splits)
  qed
qed

lemma handle_client_try_sent:
  assumes "p \<in> set (sent (fst (handle_client_try srv env)))"
  shows "reflects (latest_results srv) p"
proof (cases "accept_res env")
  case (Some e)
  with assms show ?thesis by (simp add: handle_client_try_def)
next
  case None
  show ?thesis
  proof (cases "recv_res env")
    case (Inl e)
    with None assms show ?thesis by (simp add: handle_client_try_def)
  next
    case (Inr request)
    show ?thesis
    proof (cases "request_path request")
      case (Inl e)
      with None Inr assms show ?thesis by (simp add: handle_client_try_def)
    next
      case (Inr path)
      with None \<open>recv_res env = Inr request\<close> assms
      have "p \<in> set (sent (fst (dispatch srv env path)))"
        by (simp add: handle_client_try_def split: prod.splits)
      then show ?thesis by (rule dispatch_sent)
    qed
  qed
qed

lemma handle_client_sent_try:
  "sent (fst (handle_client srv env)) = sent (fst (handle_client_try srv env))"
  by (auto simp: handle_client_def sent_append split: prod.splits option.splits exn.splits sum.splits)

lemma handle_client_sent:
  "p \<in> set (sent (fst (handle_client srv env))) \<Longrightarrow> reflects (latest_results srv) p"
  by (simp only: handle_client_sent_try handle_client_try_sent)

text \<open>A request without a path: nothing is sent, nothing is closed, nothing is raised.\<close>

lemma handle_client_no_path:
  assumes "accept_res env = None" "recv_res env = Inr request" "request_path request = Inl IndexError"
  shows "handle_client srv env =
           ([EvSetBlocking False, EvAccept, EvLog ''HTTP client connected'', EvSetBlocking True,
             EvRecv, EvLog ''Error handling HTTP client''], None)"
  using assms by (simp add: handle_client_def handle_client_try_def)

text \<open>A request whose path is none of the five routes, to a client that takes the write.\<close>

lemma handle_client_default_route:
  assumes "accept_res env = None" "recv_res env = Inr request" "request_path request = Inr path"
    and "path \<notin> {''/classify'', ''/data'', ''/api'', ''/jpg'', ''/capture''}"
    and "send_res env 0 = None"
  shows "handle_client srv env =
           ([EvSetBlocking False, EvAccept, EvLog ''HTTP client connected'', EvSetBlocking True,
             EvRecv, EvSend (Text (html_header @ status_page (latest_results srv))), EvClose],
            None)"
proof -
  from assms(4) have "dispatch srv env path =
      ([EvSend (Text (html_header @ status_page (latest_results srv))), EvClose], None)"
    unfolding dispatch_def using assms(5) by simp
  with assms(1-3) show ?thesis by (simp add: handle_client_def handle_client_try_def)
qed

lemma handle_client_json_route:
  assumes "accept_res env = None" "recv_res env = Inr request" "request_path request = Inr path"
    and "path \<in> {''/classify'', ''/data'', ''/api''}"
    and "send_res env 0 = None"
  shows "handle_client srv env =
           ([EvSetBlocking False, EvAccept, EvLog ''HTTP client connected'', EvSetBlocking True,
             EvRecv, EvSend (Json json_header (latest_results srv)), EvClose], None)"
proof -
  from assms(4) have "path = ''/classify'' \<or> path = ''/data'' \<or> path = ''/api''" by blast
  then have "dispatch srv env path =
      ([EvSend (Json json_header (latest_results srv)), EvClose], None)"
    unfolding dispatch_def using assms(5) by (simp only: if_True option.case)
  with assms(1-3) show ?thesis by (simp add: handle_client_def handle_client_try_def)
qed

subsection \<open>Concrete runs\<close>

lemma client_classify_served:
  "handle_client srv (client_sending ''GET /classify HTTP/1.1'') =
     ([EvSetBlocking False, EvAccept, EvLog ''HTTP client connected'', EvSetBlocking True,
       EvRecv, EvSend (Json json_header (latest_results srv)), EvClose], None)"
  by (rule handle_client_json_route [where request = "''GET /classify HTTP/1.1''"
        and path = "''/classify''"])
     (simp_all add: client_sending_def request_path_classify)

lemma preprocess_four_bytes_ok:
  "preprocess_image (PyBytes [255, 0, 128, 7]) = Inr (pad_or_truncate (sampled [255, 0, 128, 7]))"
  by (rule preprocess_image_bytes)

lemma failed_inference_tick_run:
  "snd (tick fresh_state failed_inference_tick) =
     Inr \<lparr>http_server =
            \<lparr>port = 80,
             latest_results =
               \<lparr>timestamp = 1000, probabilities = [0.33, 0.33, 0.34], predicted_class = 2\<rparr>\<rparr>,
          last_class = 2\<rparr>"
proof -
  let ?fr = "PyBytes [255, 0, 128, 7]"
  have f: "frame_res failed_inference_tick = Inr ?fr" "\<not> falsy ?fr"
    by (simp_all add: failed_inference_tick_def)
  have e: "engine_raises (engine failed_inference_tick) (pad_or_truncate (sampled [255, 0, 128, 7]))"
    by (simp add: failed_inference_tick_def failing_engine_raises)
  from classify_frame_engine_raises [OF preprocess_four_bytes_ok e] obtain evs0 where
    c0: "classify_frame failed_inference_tick ?fr =
          (evs0, Inr (Some \<lparr>timestamp = ticks_ms failed_inference_tick,
             probabilities = [0.33, 0.33, 0.34], predicted_class = 2\<rparr>))"
    by blast
  from tick_captured [OF f, of fresh_state] obtain evs r evs_log where
    t: "classify_frame failed_inference_tick ?fr = (evs, Inr (Some r))"
       "tick fresh_state failed_inference_tick = tick_rest fresh_state failed_inference_tick evs r evs_log"
    by metis
  from t(1) c0 have r: "r = \<lparr>timestamp = ticks_ms failed_inference_tick,
             probabilities = [0.33, 0.33, 0.34], predicted_class = 2\<rparr>" by simp
  have c: "client failed_inference_tick = client_sending ''GET /classify HTTP/1.1''"
    by (simp add: failed_inference_tick_def)
  have "snd (tick fresh_state failed_inference_tick) =
      Inr \<lparr>http_server = update_results (http_server fresh_state) r,
                  last_class = predicted_class r\<rparr>"
    unfolding t(2) tick_rest_def c client_classify_served by simp
  then show ?thesis
    by (simp add: r update_results_def fresh_state_def fresh_server_def failed_inference_tick_def)
qed

subsection \<open>Claims about a failing interpreter\<close>

lemma tick_rest_state:
  assumes "snd (tick_rest st env evs r evs_log) = Inr st'"
  shows "st' = \<lparr>http_server = update_results (http_server st) r, last_class = predicted_class r\<rparr>"
  using assms by (auto simp: tick_rest_def split: prod.splits option.splits)

lemma tick_rest_raised:
  assumes "snd (tick_rest st env evs r evs_log) = Inl e"
  shows "snd (handle_client (update_results (http_server st) r) (client env)) = Some e"
  using assms by (auto simp: tick_rest_def split: prod.splits option.splits)

text \<open>
  C9. In every iteration whose interpreter call raises, the result built is exactly
  probabilities \<open>[0.33, 0.33, 0.34]\<close> with \<open>predicted_class = 2\<close>, the index of
  \<open>scissors\<close>: the fallback vector goes through the ordinary arg max, not through the
  class-0 default of short outputs. When the iteration completes, this is the result
  the cache holds and the class the loop remembers.
\<close>

theorem failed_inference_predicts_scissors:
  assumes "preprocess_image fr = Inr x" "engine_raises (engine env) x"
  shows "(\<exists>evs. classify_frame env fr =
            (evs, Inr (Some \<lparr>timestamp = ticks_ms env, probabilities = [0.33, 0.33, 0.34],
                             predicted_class = 2\<rparr>)))
         \<and> class_names ! 2 = ''scissors''
         \<and> (\<forall>st st'. frame_res env = Inr fr \<and> \<not> falsy fr \<and> snd (tick st env) = Inr st' \<longrightarrow>
              latest_results (http_server st') =
                \<lparr>timestamp = ticks_ms env, probabilities = [0.33, 0.33, 0.34], predicted_class = 2\<rparr>
              \<and> last_class st' = 2)"
proof -
  let ?r = "\<lparr>timestamp = ticks_ms env, probabilities = [0.33, 0.33, 0.34], predicted_class = 2\<rparr>"
  from classify_frame_engine_raises [OF assms] obtain evs0 where
    c0: "classify_frame env fr = (evs0, Inr (Some ?r))" by blast
  then have 1: "\<exists>evs. classify_frame env fr = (evs, Inr (Some ?r))" by blast
  have 2: "class_names ! 2 = ''scissors''" by (simp add: class_names_def)
  have 3: "\<forall>st st'. frame_res env = Inr fr \<and> \<not> falsy fr \<and> snd (tick st env) = Inr st' \<longrightarrow>
              latest_results (http_server st') = ?r \<and> last_class st' = 2"
  proof (intro allI impI)
    fix st st'
    assume a: "frame_res env = Inr fr \<and> \<not> falsy fr \<and> snd (tick st env) = Inr st'"
    then have f: "frame_res env = Inr fr" "\<not> falsy fr" by simp_all
    from tick_captured [OF f, of st] obtain evs r evs_log where
      t: "classify_frame env fr = (evs, Inr (Some r))"
         "tick st env = tick_rest st env evs r evs_log"
      by metis
    from t(1) c0 have r: "r = ?r" by simp
    from a have "snd (tick_rest st env evs r evs_log) = Inr st'" by (simp add: t(2))
    from tick_rest_state [OF this] show "latest_results (http_server st') = ?r \<and> last_class st' = 2"
      by (simp add: r update_results_def)
  qed
  show ?thesis by (rule conjI [OF 1 conjI [OF 2 3]])
qed

theorem failed_inference_predicts_scissors_witness:
  "preprocess_image (PyBytes [255, 0, 128, 7]) = Inr (pad_or_truncate (sampled [255, 0, 128, 7]))
   \<and> engine_raises (engine failed_inference_tick) (pad_or_truncate (sampled [255, 0, 128, 7]))
   \<and> frame_res failed_inference_tick = Inr (PyBytes [255, 0, 128, 7])
   \<and> \<not> falsy (PyBytes [255, 0, 128, 7])
   \<and> (\<exists>st'. snd (tick fresh_state failed_inference_tick) = Inr st'
         \<and> latest_results (http_server st') =
             \<lparr>timestamp = 1000, probabilities = [0.33, 0.33, 0.34], predicted_class = 2\<rparr>
         \<and> last_class st' = 2)"
proof -
  have e: "engine_raises (engine failed_inference_tick) (pad_or_truncate (sampled [255, 0, 128, 7]))"
    by (simp add: failed_inference_tick_def failing_engine_raises)
  have f: "frame_res failed_inference_tick = Inr (PyBytes [255, 0, 128, 7])"
    by (simp add: failed_inference_tick_def)
  have n: "\<not> falsy (PyBytes [255, 0, 128, 7])" by simp
  obtain st' where s: "snd (tick fresh_state failed_inference_tick) = Inr st'"
    using failed_inference_tick_run by blast
  from failed_inference_predicts_scissors [OF preprocess_four_bytes_ok e] f n s
  have "latest_results (http_server st') =
             \<lparr>timestamp = ticks_ms failed_inference_tick, probabilities = [0.33, 0.33, 0.34],
              predicted_class = 2\<rparr> \<and> last_class st' = 2"
    by blast
  then have "latest_results (http_server st') =
             \<lparr>timestamp = 1000, probabilities = [0.33, 0.33, 0.34], predicted_class = 2\<rparr>
         \<and> last_class st' = 2"
    by (simp add: failed_inference_tick_def)
  with preprocess_four_bytes_ok e f n s show ?thesis by blast
qed

text \<open>
  C7. In every iteration whose interpreter call raises, \<^verbatim>\<open>run_inference\<close> catches the
  exception and returns the fallback vector, so the classification of the frame ends
  normally with a result of exactly 3 probabilities that sum to 1 and a
  \<open>predicted_class\<close> in \<open>[0, 3)\<close>; an exception that ends such an iteration was raised by
  the responder, not by the classification.
\<close>

theorem inference_failure_is_caught:
  assumes "preprocess_image fr = Inr x" "engine_raises (engine env) x"
  shows "(\<exists>evs. run_inference (engine env) x = (evs, Inr [0.33, 0.33, 0.34]))
         \<and> (\<exists>evs r. classify_frame env fr = (evs, Inr (Some r))
               \<and> length (probabilities r) = 3 \<and> sum_list (probabilities r) = 1
               \<and> 0 \<le> predicted_class r \<and> predicted_class r < 3
               \<and> (\<forall>st e. frame_res env = Inr fr \<and> \<not> falsy fr \<and> snd (tick st env) = Inl e \<longrightarrow>
                     snd (handle_client (update_results (http_server st) r) (client env)) = Some e))"
proof -
  let ?r = "\<lparr>timestamp = ticks_ms env, probabilities = [0.33, 0.33, 0.34], predicted_class = 2\<rparr>"
  from classify_frame_engine_raises [OF assms] obtain evs where
    i: "run_inference (engine env) x = (evs, Inr [0.33, 0.33, 0.34])"
    and c: "classify_frame env fr = (evs, Inr (Some ?r))"
    by blast
  have p: "\<forall>st e. frame_res env = Inr fr \<and> \<not> falsy fr \<and> snd (tick st env) = Inl e \<longrightarrow>
             snd (handle_client (update_results (http_server st) ?r) (client env)) = Some e"
  proof (intro allI impI)
    fix st e
    assume a: "frame_res env = Inr fr \<and> \<not> falsy fr \<and> snd (tick st env) = Inl e"
    then have f: "frame_res env = Inr fr" "\<not> falsy fr" by simp_all
    from tick_captured [OF f, of st] obtain evs' r evs_log where
      t: "classify_frame env fr = (evs', Inr (Some r))"
         "tick st env = tick_rest st env evs' r evs_log"
      by metis
    from t(1) c have r: "r = ?r" by simp
    from a have "snd (tick_rest st env evs' r evs_log) = Inl e" by (simp add: t(2))
    from tick_rest_raised [OF this]
    show "snd (handle_client (update_results (http_server st) ?r) (client env)) = Some e"
      by (simp only: r)
  qed
  have "length (probabilities ?r) = 3 \<and> sum_list (probabilities ?r) = 1
        \<and> 0 \<le> predicted_class ?r \<and> predicted_class ?r < 3"
    by simp
  with i c p show ?thesis by blast
qed

theorem inference_failure_is_caught_witness:
  "preprocess_image (PyBytes [255, 0, 128, 7]) = Inr (pad_or_truncate (sampled [255, 0, 128, 7]))
   \<and> engine_raises (engine failed_inference_tick) (pad_or_truncate (sampled [255, 0, 128, 7]))
   \<and> (\<exists>evs. run_inference (engine failed_inference_tick) (pad_or_truncate (sampled [255, 0, 128, 7]))
          = (evs, Inr [0.33, 0.33, 0.34]))
   \<and> (\<exists>evs r. classify_frame failed_inference_tick (PyBytes [255, 0, 128, 7]) = (evs, Inr (Some r))
          \<and> length (probabilities r) = 3 \<and> sum_list (probabilities r) = 1
          \<and> 0 \<le> predicted_class r \<and> predicted_class r < 3)"
proof -
  have e: "engine_raises (engine failed_inference_tick) (pad_or_truncate (sampled [255, 0, 128, 7]))"
    by (simp add: failed_inference_tick_def failing_engine_raises)
  from inference_failure_is_caught [OF preprocess_four_bytes_ok e] preprocess_four_bytes_ok e
  show ?thesis by blast
qed

subsection \<open>Claims about the order of an iteration\<close>

lemma tick_rest_events:
  "fst (tick_rest st env evs r evs_log) =
     EvCapture # evs @ evs_log @ fst (handle_client (update_results (http_server st) r) (client env))
       @ (case snd (handle_client (update_results (http_server st) r) (client env)) of
            Some e \<Rightarrow> [] | None \<Rightarrow> [EvGcCollect, EvSleep 50])"
  by (auto simp: tick_rest_def split: prod.splits option.splits)

lemma tick_rest_sent:
  assumes "\<not> list_ex is_responder_event (evs @ evs_log)"
  shows "sent (fst (tick_rest st env evs r evs_log))
           = sent (fst (handle_client (update_results (http_server st) r) (client env)))"
proof -
  from assms have "sent (evs @ evs_log) = []" by (rule sent_quiet)
  then have "sent evs = []" "sent evs_log = []" by (simp_all add: sent_append)
  then show ?thesis
    by (simp add: tick_rest_events sent_append split: option.splits)
qed

lemma tick_no_capture:
  assumes "frame_res env = Inl e \<or> (\<exists>fr. frame_res env = Inr fr \<and> falsy fr)"
  shows "snd (tick st env) = Inr st
         \<and> (fst (tick st env) = [EvCapture, EvLog ''Camera capture error'', EvSleep 100]
            \<or> fst (tick st env) = [EvCapture, EvLog ''Failed to capture frame'', EvSleep 100])"
  using assms by (auto simp: tick_def)

text \<open>
  C5 (as the code has it). In every iteration whose capture raises or returns a falsy
  frame, nothing is preprocessed or inferred, the loop sleeps 100 ms and goes on to the
  next capture with \<^verbatim>\<open>continue\<close>: the cache is not updated and the responder is not
  driven in that iteration, and the loop state is unchanged.
\<close>

theorem failed_capture_skips_iteration:
  assumes "frame_res env = Inl e \<or> (\<exists>fr. frame_res env = Inr fr \<and> falsy fr)"
  shows "snd (tick st env) = Inr st
         \<and> (\<exists>msg. fst (tick st env) = [EvCapture, EvLog msg, EvSleep 100])
         \<and> \<not> list_ex is_engine_event (fst (tick st env))
         \<and> \<not> list_ex is_responder_event (fst (tick st env))"
  using tick_no_capture [OF assms, of st] by auto

theorem failed_capture_skips_iteration_witness:
  "frame_res missed_capture = Inr PyNone \<and> falsy PyNone
   \<and> snd (tick fresh_state missed_capture) = Inr fresh_state
   \<and> fst (tick fresh_state missed_capture)
       = [EvCapture, EvLog ''Failed to capture frame'', EvSleep 100]"
proof -
  have f: "frame_res missed_capture = Inr PyNone" by (simp add: missed_capture_def)
  then have "frame_res missed_capture = Inl IndexError
      \<or> (\<exists>fr. frame_res missed_capture = Inr fr \<and> falsy fr)" by simp
  from failed_capture_skips_iteration [OF this, of fresh_state]
  have "snd (tick fresh_state missed_capture) = Inr fresh_state" by blast
  moreover have "fst (tick fresh_state missed_capture)
       = [EvCapture, EvLog ''Failed to capture frame'', EvSleep 100]"
    by (simp add: tick_def f)
  ultimately show ?thesis using f by simp
qed

text \<open>
  The claim as the specification states it fails: with a client waiting for
  \<^verbatim>\<open>/classify\<close>, an iteration whose capture returns \<^verbatim>\<open>None\<close> makes no call to the
  responder at all.
\<close>

theorem failed_capture_drives_no_responder:
  "accept_res (client missed_capture) = None
   \<and> fst (tick fresh_state missed_capture)
       = [EvCapture, EvLog ''Failed to capture frame'', EvSleep 100]
   \<and> \<not> list_ex is_responder_event (fst (tick fresh_state missed_capture))
   \<and> sent (fst (tick fresh_state missed_capture)) = []"
  by (simp add: tick_def missed_capture_def client_sending_def)

text \<open>
  C8. In every iteration the cache is updated before the responder is driven: the
  responder runs on the server whose \<open>latest_results\<close> is the result classified in this
  iteration, its events follow those of inference, and everything sent during the
  iteration is the JSON or the status page of that result, or a part of the image
  answer. An iteration whose capture failed sends nothing.
\<close>

theorem cache_updated_before_responder:
  "(\<forall>p \<in> set (sent (fst (tick st env))).
      \<exists>fr evs r. frame_res env = Inr fr \<and> classify_frame env fr = (evs, Inr (Some r))
        \<and> reflects r p)
   \<and> (\<forall>fr. frame_res env = Inr fr \<and> \<not> falsy fr \<longrightarrow>
        (\<exists>evs r evs_log rest.
           classify_frame env fr = (evs, Inr (Some r))
           \<and> latest_results (update_results (http_server st) r) = r
           \<and> fst (tick st env) =
               EvCapture # evs @ evs_log
                 @ fst (handle_client (update_results (http_server st) r) (client env)) @ rest
           \<and> \<not> list_ex is_responder_event (evs @ evs_log @ rest)))"
proof -
  have captured: "\<exists>evs r evs_log rest.
           classify_frame env fr = (evs, Inr (Some r))
           \<and> latest_results (update_results (http_server st) r) = r
           \<and> fst (tick st env) =
               EvCapture # evs @ evs_log
                 @ fst (handle_client (update_results (http_server st) r) (client env)) @ rest
           \<and> \<not> list_ex is_responder_event (evs @ evs_log @ rest)
           \<and> sent (fst (tick st env))
               = sent (fst (handle_client (update_results (http_server st) r) (client env)))"
    if f: "frame_res env = Inr fr" "\<not> falsy fr" for fr
  proof -
    from tick_captured [OF f, of st] obtain evs r evs_log where
      t: "classify_frame env fr = (evs, Inr (Some r))"
         "\<not> list_ex is_responder_event (evs @ evs_log)"
         "tick st env = tick_rest st env evs r evs_log"
      by metis
    let ?h = "handle_client (update_results (http_server st) r) (client env)"
    let ?rest = "case snd ?h of Some e \<Rightarrow> [] | None \<Rightarrow> [EvGcCollect, EvSleep 50]"
    have 1: "fst (tick st env) = EvCapture # evs @ evs_log @ fst ?h @ ?rest"
      by (simp only: t(3) tick_rest_events)
    have 2: "\<not> list_ex is_responder_event (evs @ evs_log @ ?rest)"
      using t(2) by (simp split: option.splits)
    have 3: "latest_results (update_results (http_server st) r) = r"
      by (simp add: update_results_def)
    have 4: "sent (fst (tick st env)) = sent (fst ?h)"
      by (simp only: t(3) tick_rest_sent [OF t(2)])
    from t(1) 1 2 3 4 show ?thesis by blast
  qed
  have a: "\<forall>p \<in> set (sent (fst (tick st env))).
      \<exists>fr evs r. frame_res env = Inr fr \<and> classify_frame env fr = (evs, Inr (Some r))
        \<and> reflects r p"
  proof
    fix p
    assume p: "p \<in> set (sent (fst (tick st env)))"
    have "\<exists>fr. frame_res env = Inr fr \<and> \<not> falsy fr"
    proof (rule ccontr)
      assume "\<not> (\<exists>fr. frame_res env = Inr fr \<and> \<not> falsy fr)"
      then have "(\<exists>e. frame_res env = Inl e) \<or> (\<exists>fr. frame_res env = Inr fr \<and> falsy fr)"
        by (cases "frame_res env") auto
      then have "sent (fst (tick st env)) = []"
        by (auto simp: tick_def)
      with p show False by simp
    qed
    then obtain fr where f: "frame_res env = Inr fr" "\<not> falsy fr" by blast
    from captured [OF f] obtain evs r where
      c: "classify_frame env fr = (evs, Inr (Some r))"
         "sent (fst (tick st env))
            = sent (fst (handle_client (update_results (http_server st) r) (client env)))"
      by blast
    from p c(2) have "reflects (latest_results (update_results (http_server st) r)) p"
      by (simp add: handle_client_sent)
    then have "reflects r p" by (simp add: update_results_def)
    with f(1) c(1) show "\<exists>fr evs r. frame_res env = Inr fr
        \<and> classify_frame env fr = (evs, Inr (Some r)) \<and> reflects r p"
      by blast
  qed
  have b: "\<forall>fr. frame_res env = Inr fr \<and> \<not> falsy fr \<longrightarrow>
        (\<exists>evs r evs_log rest.
           classify_frame env fr = (evs, Inr (Some r))
           \<and> latest_results (update_results (http_server st) r) = r
           \<and> fst (tick st env) =
               EvCapture # evs @ evs_log
                 @ fst (handle_client (update_results (http_server st) r) (client env)) @ rest
           \<and> \<not> list_ex is_responder_event (evs @ evs_log @ rest))"
    using captured by blast
  show ?thesis by (rule conjI [OF a b])
qed

lemma good_tick_classified:
  "classify_frame good_tick (PyBytes [255, 0, 128, 7]) =
     ([EvSetInput, EvInvoke, EvGetOutput, EvLog ''Inference complete''],
      Inr (Some \<lparr>timestamp = 1000, probabilities = [0.1, 0.7, 0.2], predicted_class = 1\<rparr>))"
proof -
  from preprocess_image_nonempty [of "PyBytes [255, 0, 128, 7]"] obtain x where
    x: "preprocess_image (PyBytes [255, 0, 128, 7]) = Inr x" "x \<noteq> []" by blast
  have i: "run_inference (engine good_tick) x =
      ([EvSetInput, EvInvoke, EvGetOutput, EvLog ''Inference complete''], Inr [0.1, 0.7, 0.2])"
    by (simp add: run_inference_def run_inference_try_def good_tick_def working_engine_def
          class_names_def)
  have p: "process_result (ticks_ms good_tick) [0.1, 0.7, 0.2] =
      Inr \<lparr>timestamp = 1000, probabilities = [0.1, 0.7, 0.2], predicted_class = 1\<rparr>"
    by (simp add: process_result_def good_tick_def)
  have "classify_frame good_tick (PyBytes [255, 0, 128, 7]) =
          (case run_inference (engine good_tick) x of
             (evs, Inl e) \<Rightarrow> (evs, Inl e)
           | (evs, Inr output) \<Rightarrow>
               (case process_result (ticks_ms good_tick) output of
                  Inl e \<Rightarrow> (evs, Inl e)
                | Inr result \<Rightarrow> (evs, Inr (Some result))))"
    using x by (simp add: classify_frame_def)
  then show ?thesis by (simp only: i prod.case sum.case p)
qed

lemma good_tick_sent:
  "sent (fst (tick fresh_state good_tick)) =
     [Json json_header \<lparr>timestamp = 1000, probabilities = [0.1, 0.7, 0.2], predicted_class = 1\<rparr>]"
proof -
  let ?fr = "PyBytes [255, 0, 128, 7]"
  have f: "frame_res good_tick = Inr ?fr" "\<not> falsy ?fr"
    by (simp_all add: good_tick_def)
  from tick_captured [OF f, of fresh_state] obtain evs r evs_log where
    t: "classify_frame good_tick ?fr = (evs, Inr (Some r))"
       "\<not> list_ex is_responder_event (evs @ evs_log)"
       "tick fresh_state good_tick = tick_rest fresh_state good_tick evs r evs_log"
    by metis
  from t(1) have r: "r = \<lparr>timestamp = 1000, probabilities = [0.1, 0.7, 0.2], predicted_class = 1\<rparr>"
    by (simp add: good_tick_classified)
  have c: "client good_tick = client_sending ''GET /classify HTTP/1.1''"
    by (simp add: good_tick_def)
  have "sent (fst (tick fresh_state good_tick)) =
      sent (fst (handle_client (update_results (http_server fresh_state) r) (client good_tick)))"
    by (simp only: t(3) tick_rest_sent [OF t(2)])
  also have "\<dots> = [Json json_header (latest_results (update_results (http_server fresh_state) r))]"
    by (simp add: c client_classify_served)
  finally show ?thesis by (simp add: r update_results_def)
qed

theorem cache_updated_before_responder_witness:
  "Json json_header \<lparr>timestamp = 1000, probabilities = [0.1, 0.7, 0.2], predicted_class = 1\<rparr>
     \<in> set (sent (fst (tick fresh_state good_tick)))
   \<and> frame_res good_tick = Inr (PyBytes [255, 0, 128, 7]) \<and> \<not> falsy (PyBytes [255, 0, 128, 7])
   \<and> (\<exists>evs. classify_frame good_tick (PyBytes [255, 0, 128, 7]) =
         (evs, Inr (Some \<lparr>timestamp = 1000, probabilities = [0.1, 0.7, 0.2], predicted_class = 1\<rparr>)))
   \<and> (\<exists>evs r evs_log rest.
         classify_frame good_tick (PyBytes [255, 0, 128, 7]) = (evs, Inr (Some r))
         \<and> latest_results (update_results (http_server fresh_state) r) = r
         \<and> fst (tick fresh_state good_tick) =
             EvCapture # evs @ evs_log
               @ fst (handle_client (update_results (http_server fresh_state) r) (client good_tick))
               @ rest)"
proof -
  let ?p = "Json json_header \<lparr>timestamp = 1000, probabilities = [0.1, 0.7, 0.2], predicted_class = 1\<rparr>"
  let ?fr = "PyBytes [255, 0, 128, 7]"
  note th = cache_updated_before_responder [of fresh_state good_tick]
  have m: "?p \<in> set (sent (fst (tick fresh_state good_tick)))"
    by (simp add: good_tick_sent)
  have f: "frame_res good_tick = Inr ?fr" "\<not> falsy ?fr"
    by (simp_all add: good_tick_def)
  from th m obtain fr evs r where
    c: "frame_res good_tick = Inr fr" "classify_frame good_tick fr = (evs, Inr (Some r))"
       "reflects r ?p"
    by blast
  from c(1) f(1) have fr: "fr = ?fr" by simp
  from c(3) have r: "r = \<lparr>timestamp = 1000, probabilities = [0.1, 0.7, 0.2], predicted_class = 1\<rparr>"
    by simp
  from c(2) have 1: "\<exists>evs. classify_frame good_tick ?fr =
         (evs, Inr (Some \<lparr>timestamp = 1000, probabilities = [0.1, 0.7, 0.2], predicted_class = 1\<rparr>))"
    unfolding fr r by blast
  from th f have 2: "\<exists>evs r evs_log rest.
         classify_frame good_tick ?fr = (evs, Inr (Some r))
         \<and> latest_results (update_results (http_server fresh_state) r) = r
         \<and> fst (tick fresh_state good_tick) =
             EvCapture # evs @ evs_log
               @ fst (handle_client (update_results (http_server fresh_state) r) (client good_tick))
               @ rest"
    by blast
  from m f 1 2 show ?thesis by blast
qed

subsection \<open>Extracting the path\<close>

lemma py_split_nonempty: "py_split sep s \<noteq> []"
  by (induction s) (auto split: list.splits)

lemma py_split_hd: "hd (py_split sep s) = takeWhile (\<lambda>c. c \<noteq> sep) s"
proof (induction s)
  case Nil
  show ?case by simp
next
  case (Cons c cs)
  then show ?case using py_split_nonempty [of sep cs] by (auto split: list.splits)
qed

lemma py_split_length: "length (py_split sep s) = Suc (length (filter (\<lambda>c. c = sep) s))"
proof (induction s)
  case Nil
  show ?case by simp
next
  case (Cons c cs)
  then show ?case using py_split_nonempty [of sep cs] by (auto split: list.splits)
qed

lemma py_nth_first: "xs \<noteq> [] \<Longrightarrow> py_nth xs 0 = Inr (hd xs)"
  by (cases xs) (simp_all add: py_nth_def)

lemma py_nth_second:
  "py_nth xs 1 = (if 2 \<le> length xs then Inr (xs ! 1) else Inl IndexError)"
  by (auto simp: py_nth_def)

lemma request_path_cases:
  "request_path request =
     (if CHR '' '' \<in> set (takeWhile (\<lambda>c. c \<noteq> CHR 0x0A) request)
      then Inr (py_split (CHR '' '') (takeWhile (\<lambda>c. c \<noteq> CHR 0x0A) request) ! 1)
      else Inl IndexError)"
proof -
  let ?line = "takeWhile (\<lambda>c. c \<noteq> CHR 0x0A) request"
  have l: "py_nth (py_split (CHR 0x0A) request) 0 = Inr ?line"
    by (simp add: py_nth_first py_split_nonempty py_split_hd)
  have "2 \<le> length (py_split (CHR '' '') ?line) \<longleftrightarrow> CHR '' '' \<in> set ?line"
    by (simp add: py_split_length filter_empty_conv Suc_le_eq numeral_2_eq_2)
  then show ?thesis
    by (simp add: request_path_def l py_nth_second)
qed

lemma status_page_shows_index:
  "sublist (''Latest class: '' @ py_str (predicted_class r)) (status_page r)"
proof -
  have \<open>status_page r =
      (''<html><body><h1>ESP32-S3 Classifier</h1>'' @ ''<p>Status: Running</p>'' @ ''<p>'')
      @ (''Latest class: '' @ py_str (predicted_class r))
      @ (''</p>'' @ ''<p>API Endpoints: <ul>''
       @ ''<li><a href="/classify">/classify</a> - JSON classification results</li>''
       @ ''<li><a href="/jpg">/jpg</a> - Latest camera image</li>''
       @ ''</ul></p>'' @ ''</body></html>'')\<close>
    by (simp add: status_page_def)
  then show ?thesis by (simp only: sublist_appendI)
qed

lemma html_header_200: "prefix ''HTTP/1.1 200 OK'' html_header"
  by (simp add: html_header_def)

lemma default_page_has_no_name:
  "\<not> sublist ''rock'' (html_header @ status_page default_results)"
  by code_simp

lemma initial_default_not_argmax: "\<not> is_first_argmax [0.33, 0.34, 0.33] 0"
  by (simp add: is_first_argmax_def upt_rec)

lemma degraded_default_not_argmax: "\<not> is_first_argmax [0.33, 0.33, 0.34] 0"
  by (simp add: is_first_argmax_def upt_rec)

subsection \<open>Claims about the responder\<close>

text \<open>
  C3 (as the code has it). When the first line of a received request contains no space,
  no path can be extracted: \<^verbatim>\<open>handle_client\<close> sends no response, the
  \<^verbatim>\<open>IndexError\<close> is caught by its \<^verbatim>\<open>except Exception\<close> clause and logged, and the method
  returns normally. A first line that contains a space always yields a path, and when
  that path is none of the five routes and the write succeeds, the 200 status page is
  sent and the connection closed.
\<close>

theorem request_without_path_is_dropped:
  assumes "accept_res env = None" "recv_res env = Inr request"
  shows "(CHR '' '' \<notin> set (takeWhile (\<lambda>c. c \<noteq> CHR 0x0A) request) \<longrightarrow>
            request_path request = Inl IndexError
            \<and> handle_client srv env =
                ([EvSetBlocking False, EvAccept, EvLog ''HTTP client connected'',
                  EvSetBlocking True, EvRecv, EvLog ''Error handling HTTP client''], None))
         \<and> (CHR '' '' \<in> set (takeWhile (\<lambda>c. c \<noteq> CHR 0x0A) request) \<longrightarrow>
              (\<exists>path. request_path request = Inr path
                 \<and> (path \<notin> {''/classify'', ''/data'', ''/api'', ''/jpg'', ''/capture''}
                      \<and> send_res env 0 = None \<longrightarrow>
                     handle_client srv env =
                       ([EvSetBlocking False, EvAccept, EvLog ''HTTP client connected'',
                         EvSetBlocking True, EvRecv,
                         EvSend (Text (html_header @ status_page (latest_results srv))), EvClose],
                        None))))"
proof (intro conjI impI)
  assume n: "CHR '' '' \<notin> set (takeWhile (\<lambda>c. c \<noteq> CHR 0x0A) request)"
  then show p: "request_path request = Inl IndexError"
    by (simp add: request_path_cases)
  from handle_client_no_path [OF assms p]
  show "handle_client srv env =
                ([EvSetBlocking False, EvAccept, EvLog ''HTTP client connected'',
                  EvSetBlocking True, EvRecv, EvLog ''Error handling HTTP client''], None)" .
next
  assume y: "CHR '' '' \<in> set (takeWhile (\<lambda>c. c \<noteq> CHR 0x0A) request)"
  let ?path = "py_split (CHR '' '') (takeWhile (\<lambda>c. c \<noteq> CHR 0x0A) request) ! 1"
  from y have p: "request_path request = Inr ?path"
    by (simp add: request_path_cases)
  have "path \<notin> {''/classify'', ''/data'', ''/api'', ''/jpg'', ''/capture''}
          \<and> send_res env 0 = None \<longrightarrow>
        handle_client srv env =
          ([EvSetBlocking False, EvAccept, EvLog ''HTTP client connected'',
            EvSetBlocking True, EvRecv,
            EvSend (Text (html_header @ status_page (latest_results srv))), EvClose], None)"
    if "path = ?path" for path
    using handle_client_default_route [OF assms p, of srv] that by blast
  with p show "\<exists>path. request_path request = Inr path
                 \<and> (path \<notin> {''/classify'', ''/data'', ''/api'', ''/jpg'', ''/capture''}
                      \<and> send_res env 0 = None \<longrightarrow>
                     handle_client srv env =
                       ([EvSetBlocking False, EvAccept, EvLog ''HTTP client connected'',
                         EvSetBlocking True, EvRecv,
                         EvSend (Text (html_header @ status_page (latest_results srv))), EvClose],
                        None))"
    by blast
qed

theorem request_without_path_is_dropped_witness:
  "accept_res (client_sending ''GARBAGE'') = None
   \<and> recv_res (client_sending ''GARBAGE'') = Inr ''GARBAGE''
   \<and> CHR '' '' \<notin> set (takeWhile (\<lambda>c. c \<noteq> CHR 0x0A) ''GARBAGE'')
   \<and> handle_client fresh_server (client_sending ''GARBAGE'') =
       ([EvSetBlocking False, EvAccept, EvLog ''HTTP client connected'',
         EvSetBlocking True, EvRecv, EvLog ''Error handling HTTP client''], None)
   \<and> CHR '' '' \<in> set (takeWhile (\<lambda>c. c \<noteq> CHR 0x0A) ''BAD LINE'')
   \<and> sent (fst (handle_client fresh_server (client_sending ''BAD LINE'')))
       = [Text (html_header @ status_page default_results)]"
proof -
  have a: "accept_res (client_sending r) = None" "recv_res (client_sending r) = Inr r"
    "send_res (client_sending r) 0 = None" for r
    by (simp_all add: client_sending_def)
  have n: "CHR '' '' \<notin> set (takeWhile (\<lambda>c. c \<noteq> CHR 0x0A) ''GARBAGE'')" by simp
  have y: "CHR '' '' \<in> set (takeWhile (\<lambda>c. c \<noteq> CHR 0x0A) ''BAD LINE'')" by simp
  have p: "request_path ''BAD LINE'' = Inr ''LINE''"
    by (simp add: request_path_def py_nth_def)
  from request_without_path_is_dropped [OF a(1,2), of "''GARBAGE''" fresh_server] n
  have 1: "handle_client fresh_server (client_sending ''GARBAGE'') =
       ([EvSetBlocking False, EvAccept, EvLog ''HTTP client connected'',
         EvSetBlocking True, EvRecv, EvLog ''Error handling HTTP client''], None)"
    by blast
  from request_without_path_is_dropped [OF a(1,2), of "''BAD LINE''" fresh_server] y p a(3)
  have "handle_client fresh_server (client_sending ''BAD LINE'') =
          ([EvSetBlocking False, EvAccept, EvLog ''HTTP client connected'',
            EvSetBlocking True, EvRecv,
            EvSend (Text (html_header @ status_page (latest_results fresh_server))), EvClose],
           None)"
    by simp
  then have 2: "sent (fst (handle_client fresh_server (client_sending ''BAD LINE'')))
       = [Text (html_header @ status_page default_results)]"
    by (simp add: fresh_server_def)
  from a(1,2) n 1 y 2 show ?thesis by blast
qed

text \<open>
  The claim as the specification states it fails: a client that sends \<^verbatim>\<open>GARBAGE\<close> gets
  nothing back, and its connection is not closed by this call.
\<close>

theorem garbage_request_gets_no_response:
  "request_path ''GARBAGE'' = Inl IndexError
   \<and> sent (fst (handle_client fresh_server (client_sending ''GARBAGE''))) = []
   \<and> EvClose \<notin> set (fst (handle_client fresh_server (client_sending ''GARBAGE'')))"
  by (simp add: request_path_garbage handle_client_def handle_client_try_def client_sending_def)

text \<open>
  C4 (as the code has it). For every request whose path is none of \<^verbatim>\<open>/classify\<close>,
  \<^verbatim>\<open>/data\<close>, \<^verbatim>\<open>/api\<close>, \<^verbatim>\<open>/jpg\<close>, \<^verbatim>\<open>/capture\<close>, the responder sends the status 200 header
  with the fixed HTML status page and closes the connection; the page shows the decimal
  index \<open>predicted_class\<close> held in the cache at that time, not the class name.
\<close>

theorem default_route_shows_class_index:
  assumes "accept_res env = None" "recv_res env = Inr request" "request_path request = Inr path"
    and "path \<notin> {''/classify'', ''/data'', ''/api'', ''/jpg'', ''/capture''}"
    and "send_res env 0 = None"
  shows "handle_client srv env =
           ([EvSetBlocking False, EvAccept, EvLog ''HTTP client connected'', EvSetBlocking True,
             EvRecv, EvSend (Text (html_header @ status_page (latest_results srv))), EvClose],
            None)
         \<and> prefix ''HTTP/1.1 200 OK'' html_header
         \<and> sublist (''Latest class: '' @ py_str (predicted_class (latest_results srv)))
              (status_page (latest_results srv))"
  using handle_client_default_route [OF assms, of srv] html_header_200
    status_page_shows_index [of "latest_results srv"]
  by simp

theorem default_route_shows_class_index_witness:
  "accept_res (client_sending ''GET /status HTTP/1.1'') = None
   \<and> recv_res (client_sending ''GET /status HTTP/1.1'') = Inr ''GET /status HTTP/1.1''
   \<and> request_path ''GET /status HTTP/1.1'' = Inr ''/status''
   \<and> send_res (client_sending ''GET /status HTTP/1.1'') 0 = None
   \<and> sent (fst (handle_client fresh_server (client_sending ''GET /status HTTP/1.1'')))
       = [Text (html_header @ status_page default_results)]
   \<and> sublist ''Latest class: 0'' (status_page default_results)"
proof -
  let ?c = "client_sending ''GET /status HTTP/1.1''"
  have a: "accept_res ?c = None" "recv_res ?c = Inr ''GET /status HTTP/1.1''"
    "send_res ?c 0 = None"
    by (simp_all add: client_sending_def)
  have n: "''/status'' \<notin> {''/classify'', ''/data'', ''/api'', ''/jpg'', ''/capture''}" by simp
  note th = default_route_shows_class_index [OF a(1,2) request_path_status n a(3), of fresh_server]
  from th have 1: "sent (fst (handle_client fresh_server ?c))
       = [Text (html_header @ status_page default_results)]"
    by (simp add: fresh_server_def)
  have l: "latest_results fresh_server = default_results" by (simp add: fresh_server_def)
  have z: "''Latest class: '' @ py_str (predicted_class default_results) = ''Latest class: 0''"
    by code_simp
  from th have "sublist (''Latest class: '' @ py_str (predicted_class (latest_results fresh_server)))
              (status_page (latest_results fresh_server))"
    by blast
  then have 2: "sublist ''Latest class: 0'' (status_page default_results)"
    by (simp only: l z)
  from a request_path_status 1 2 show ?thesis by blast
qed

text \<open>
  The claim as the specification states it fails: before the first inference the cache
  holds class 0, whose name is \<^verbatim>\<open>rock\<close>, and the page served for \<^verbatim>\<open>/status\<close> does not
  contain that name.
\<close>

theorem status_page_lacks_class_name:
  "sent (fst (handle_client fresh_server (client_sending ''GET /status HTTP/1.1'')))
     = [Text (html_header @ status_page (latest_results fresh_server))]
   \<and> class_names ! nat (predicted_class (latest_results fresh_server)) = ''rock''
   \<and> \<not> sublist (class_names ! nat (predicted_class (latest_results fresh_server)))
        (html_header @ status_page (latest_results fresh_server))"
proof -
  let ?c = "client_sending ''GET /status HTTP/1.1''"
  have a: "accept_res ?c = None" "recv_res ?c = Inr ''GET /status HTTP/1.1''"
    "send_res ?c 0 = None"
    by (simp_all add: client_sending_def)
  have n: "''/status'' \<notin> {''/classify'', ''/data'', ''/api'', ''/jpg'', ''/capture''}" by simp
  from handle_client_default_route [OF a(1,2) request_path_status n a(3), of fresh_server]
  have 1: "sent (fst (handle_client fresh_server ?c))
     = [Text (html_header @ status_page (latest_results fresh_server))]"
    by simp
  have l: "latest_results fresh_server = default_results" by (simp add: fresh_server_def)
  have 2: "class_names ! nat (predicted_class (latest_results fresh_server)) = ''rock''"
    by (simp add: l default_results_def class_names_def)
  have 3: "\<not> sublist (class_names ! nat (predicted_class (latest_results fresh_server)))
        (html_header @ status_page (latest_results fresh_server))"
    by (simp only: 2) (simp only: l default_page_has_no_name not_False_eq_True)
  from 1 2 3 show ?thesis by blast
qed

subsection \<open>The shape of cached results\<close>

lemma HTTPServer_init_default:
  assumes "snd (HTTPServer_init senv p) = Inr srv"
  shows "latest_results srv = default_results"
proof -
  have s: "latest_results srv = default_results" if "start_listening senv q = Inr srv" for q
    using that by (auto simp: start_listening_def default_results_def split: option.splits)
  from assms show ?thesis
    by (auto simp: HTTPServer_init_def split: option.splits exn.splits sum.splits if_splits
        intro: s)
qed

lemma default_results_shape: "cache_shape default_results"
  by (simp add: cache_shape_def default_results_def)

lemma tick_keeps_shape:
  assumes "cache_shape (latest_results (http_server st))" "snd (tick st env) = Inr st'"
  shows "cache_shape (latest_results (http_server st'))"
proof (cases "\<exists>fr. frame_res env = Inr fr \<and> \<not> falsy fr")
  case True
  then obtain fr where f: "frame_res env = Inr fr" "\<not> falsy fr" by blast
  from tick_captured [OF f, of st] obtain evs r evs_log where
    t: "cache_shape r" "tick st env = tick_rest st env evs r evs_log"
    by metis
  from assms(2) have "snd (tick_rest st env evs r evs_log) = Inr st'" by (simp add: t(2))
  from tick_rest_state [OF this] show ?thesis using t(1) by (simp add: update_results_def)
next
  case False
  then have "(\<exists>e. frame_res env = Inl e) \<or> (\<exists>fr. frame_res env = Inr fr \<and> falsy fr)"
    by (cases "frame_res env") auto
  then have "snd (tick st env) = Inr st" by (auto simp: tick_def)
  with assms show ?thesis by simp
qed

text \<open>
  C1 (as the code has it). Every result the system produces or holds has exactly 3
  probabilities and a \<open>predicted_class\<close> in \<open>[0, 3)\<close>. A result built by
  \<^verbatim>\<open>process_result\<close> from an output of at least 3 entries has the lowest index of the
  maximum as its class. The two fixed defaults carry class 0 whatever their vector:
  the initial cache content \<open>[0.33, 0.34, 0.33]\<close> and the degraded result
  \<open>[0.33, 0.33, 0.34]\<close> built for a shorter output. The cache keeps this shape from
  start-up through every iteration.
\<close>

theorem cached_result_shape:
  "(\<forall>srv. snd (HTTPServer_init senv p) = Inr srv \<longrightarrow>
       latest_results srv =
         \<lparr>timestamp = 0, probabilities = [0.33, 0.34, 0.33], predicted_class = 0\<rparr>
       \<and> cache_shape (latest_results srv))
   \<and> (\<exists>r. process_result now out = Inr r \<and> cache_shape r
         \<and> (3 \<le> length out \<longrightarrow>
               probabilities r = take 3 out
               \<and> is_first_argmax (probabilities r) (nat (predicted_class r)))
         \<and> (length out < 3 \<longrightarrow>
               probabilities r = [0.33, 0.33, 0.34] \<and> predicted_class r = 0))
   \<and> (\<forall>st'. cache_shape (latest_results (http_server st)) \<and> snd (tick st env) = Inr st' \<longrightarrow>
         cache_shape (latest_results (http_server st')))"
proof -
  have 1: "\<forall>srv. snd (HTTPServer_init senv p) = Inr srv \<longrightarrow>
       latest_results srv =
         \<lparr>timestamp = 0, probabilities = [0.33, 0.34, 0.33], predicted_class = 0\<rparr>
       \<and> cache_shape (latest_results srv)"
  proof (intro allI impI)
    fix srv
    assume "snd (HTTPServer_init senv p) = Inr srv"
    then have d: "latest_results srv = default_results" by (rule HTTPServer_init_default)
    have "default_results =
        \<lparr>timestamp = 0, probabilities = [0.33, 0.34, 0.33], predicted_class = 0\<rparr>"
      by (simp add: default_results_def)
    with d default_results_shape show "latest_results srv =
         \<lparr>timestamp = 0, probabilities = [0.33, 0.34, 0.33], predicted_class = 0\<rparr>
       \<and> cache_shape (latest_results srv)"
      by simp
  qed
  have 2: "\<exists>r. process_result now out = Inr r \<and> cache_shape r
         \<and> (3 \<le> length out \<longrightarrow>
               probabilities r = take 3 out
               \<and> is_first_argmax (probabilities r) (nat (predicted_class r)))
         \<and> (length out < 3 \<longrightarrow>
               probabilities r = [0.33, 0.33, 0.34] \<and> predicted_class r = 0)"
  proof (cases "3 \<le> length out")
    case True
    from process_result_ge3 [OF True, of now] obtain k where
      k: "process_result now out =
            Inr \<lparr>timestamp = now, probabilities = take 3 out, predicted_class = int k\<rparr>"
         "k < 3" "is_first_argmax (take 3 out) k"
      by blast
    then show ?thesis using True by (simp add: cache_shape_def)
  next
    case False
    then show ?thesis by (simp add: process_result_short cache_shape_def)
  qed
  have 3: "\<forall>st'. cache_shape (latest_results (http_server st)) \<and> snd (tick st env) = Inr st' \<longrightarrow>
         cache_shape (latest_results (http_server st'))"
    using tick_keeps_shape by blast
  show ?thesis by (rule conjI [OF 1 conjI [OF 2 3]])
qed

theorem cached_result_shape_witness:
  "snd (HTTPServer_init free_socket 80) = Inr fresh_server
   \<and> cache_shape (latest_results fresh_server)
   \<and> 3 \<le> length [0.1, 0.7, 0.2 :: real]
   \<and> (\<exists>r. process_result 1000 [0.1, 0.7, 0.2] = Inr r \<and> predicted_class r = 1
         \<and> is_first_argmax (probabilities r) (nat (predicted_class r)))
   \<and> cache_shape (latest_results (http_server fresh_state))
   \<and> (\<exists>st'. snd (tick fresh_state failed_inference_tick) = Inr st'
         \<and> cache_shape (latest_results (http_server st')))"
proof -
  have i: "snd (HTTPServer_init free_socket 80) = Inr fresh_server"
    by (simp add: HTTPServer_init_def free_socket_def start_listening_def fresh_server_def
          default_results_def)
  have s: "cache_shape (latest_results (http_server fresh_state))"
    by (simp add: fresh_state_def fresh_server_def default_results_shape)
  note th = cached_result_shape [of free_socket 80 1000 "[0.1, 0.7, 0.2]" fresh_state
      failed_inference_tick]
  from th i have 1: "cache_shape (latest_results fresh_server)" by blast
  have p: "process_result 1000 [0.1, 0.7, 0.2] =
      Inr \<lparr>timestamp = 1000, probabilities = [0.1, 0.7, 0.2], predicted_class = 1\<rparr>"
    by (simp add: process_result_def)
  from th have "\<exists>r. process_result 1000 [0.1, 0.7, 0.2] = Inr r
         \<and> (3 \<le> length [0.1, 0.7, 0.2 :: real] \<longrightarrow>
               is_first_argmax (probabilities r) (nat (predicted_class r)))"
    by blast
  then obtain r where
    r: "process_result 1000 [0.1, 0.7, 0.2] = Inr r"
       "is_first_argmax (probabilities r) (nat (predicted_class r))"
    by auto
  have "Inr r = (Inr \<lparr>timestamp = 1000, probabilities = [0.1, 0.7, 0.2], predicted_class = 1\<rparr>
          :: exn + classification_result)"
    by (rule trans [OF sym [OF r(1)] p])
  then have "predicted_class r = 1" by simp
  with r have 2: "\<exists>r. process_result 1000 [0.1, 0.7, 0.2] = Inr r \<and> predicted_class r = 1
         \<and> is_first_argmax (probabilities r) (nat (predicted_class r))"
    by blast
  obtain st' where t: "snd (tick fresh_state failed_inference_tick) = Inr st'"
    using failed_inference_tick_run by blast
  from th s t have 3: "cache_shape (latest_results (http_server st'))" by blast
  have l: "3 \<le> length [0.1, 0.7, 0.2 :: real]" by simp
  from i 1 l 2 s t 3 show ?thesis by blast
qed

text \<open>
  The claim as the specification states it fails on both fixed defaults: the initial
  cache content has 3 probabilities with the maximum at index 1, and the degraded result
  built for a 2-entry output has its maximum at index 2, yet both carry class 0.
\<close>

theorem default_results_not_argmax:
  "snd (HTTPServer_init free_socket 80) = Inr fresh_server
   \<and> length (probabilities (latest_results fresh_server)) = 3
   \<and> \<not> is_first_argmax (probabilities (latest_results fresh_server))
         (nat (predicted_class (latest_results fresh_server)))
   \<and> process_result 1000 [0.9, 0.1] =
       Inr \<lparr>timestamp = 1000, probabilities = [0.33, 0.33, 0.34], predicted_class = 0\<rparr>
   \<and> \<not> is_first_argmax [0.33, 0.33, 0.34] (nat 0)"
proof -
  have i: "snd (HTTPServer_init free_socket 80) = Inr fresh_server"
    by (simp add: HTTPServer_init_def free_socket_def start_listening_def fresh_server_def
          default_results_def)
  have l: "latest_results fresh_server =
      \<lparr>timestamp = 0, probabilities = [0.33, 0.34, 0.33], predicted_class = 0\<rparr>"
    by (simp add: fresh_server_def default_results_def)
  have 1: "length (probabilities (latest_results fresh_server)) = 3" by (simp add: l)
  have 2: "\<not> is_first_argmax (probabilities (latest_results fresh_server))
         (nat (predicted_class (latest_results fresh_server)))"
    using initial_default_not_argmax by (simp add: l)
  have 3: "process_result 1000 [0.9, 0.1] =
       Inr \<lparr>timestamp = 1000, probabilities = [0.33, 0.33, 0.34], predicted_class = 0\<rparr>"
    by (rule process_result_short) simp
  have 4: "\<not> is_first_argmax [0.33, 0.33, 0.34] (nat 0)"
    using degraded_default_not_argmax by simp
  from i 1 2 3 4 show ?thesis by blast
qed

end
